theory Spec2Isabelle
  imports Complex_Main "HOL-Library.Word" "HOL-Library.Multiset"
begin

section \<open>JavaScript strings and buffers\<close>

text \<open>
  A JavaScript string is a sequence of UTF-16 code units: \<open>length\<close>, \<open>split\<close> and regular
  expressions without the \<open>u\<close> flag all work on code units. A Node \<open>Buffer\<close> is a
  sequence of bytes. \<open>js\<close> embeds an ASCII literal.
\<close>

type_synonym code_unit = "16 word"
type_synonym jsstring = "code_unit list"
type_synonym byte = "8 word"
type_synonym buffer = "byte list"

definition js :: "string \<Rightarrow> jsstring" where
  "js s = map of_char s"

definition in_range :: "code_unit \<Rightarrow> code_unit \<Rightarrow> code_unit \<Rightarrow> bool" where
  "in_range lo hi c \<longleftrightarrow> lo \<le> c \<and> c \<le> hi"

definition is_AZ :: "code_unit \<Rightarrow> bool" where
  "is_AZ c = in_range 0x41 0x5A c"

definition is_az :: "code_unit \<Rightarrow> bool" where
  "is_az c = in_range 0x61 0x7A c"

definition is_09 :: "code_unit \<Rightarrow> bool" where
  "is_09 c = in_range 0x30 0x39 c"

text \<open>The four regular expressions of \<open>services/password.ts\<close>, as \<open>RegExp.test\<close>.\<close>

definition test_upper :: "jsstring \<Rightarrow> bool" where
  "test_upper s = list_ex is_AZ s"

definition test_lower :: "jsstring \<Rightarrow> bool" where
  "test_lower s = list_ex is_az s"

definition test_digit :: "jsstring \<Rightarrow> bool" where
  "test_digit s = list_ex is_09 s"

definition test_special :: "jsstring \<Rightarrow> bool" where
  "test_special s = list_ex (\<lambda>c. \<not> (is_AZ c \<or> is_az c \<or> is_09 c)) s"

section \<open>Password strength (\<open>passwordService.checkPasswordStrength\<close>)\<close>

text \<open>The messages pushed to \<open>feedback\<close>; \<open>0xE8\<close> and \<open>0xE9\<close> are the accented letters.\<close>

definition MSG_LONGUEUR :: jsstring where
  "MSG_LONGUEUR = js ''Le mot de passe doit contenir au moins 8 caract'' @ [0xE8] @ js ''res''"

definition MSG_MAJUSCULE :: jsstring where
  "MSG_MAJUSCULE = js ''Ajouter au moins une majuscule''"

definition MSG_MINUSCULE :: jsstring where
  "MSG_MINUSCULE = js ''Ajouter au moins une minuscule''"

definition MSG_CHIFFRE :: jsstring where
  "MSG_CHIFFRE = js ''Ajouter au moins un chiffre''"

definition MSG_SPECIAL :: jsstring where
  "MSG_SPECIAL = js ''Ajouter au moins un caract'' @ [0xE8] @ js ''re sp'' @ [0xE9] @ js ''cial''"

definition MSG_FORT :: jsstring where
  "MSG_FORT = js ''Mot de passe fort''"

record strength =
  score :: nat
  feedback :: "jsstring list"

text \<open>
  One \<open>if (ok) { score += 1 } else { feedback.push(msg) }\<close> block; the last block of the
  source has no \<open>else\<close> branch, which is \<open>None\<close> here.
\<close>

definition criterion :: "bool \<Rightarrow> jsstring option \<Rightarrow> nat \<times> jsstring list \<Rightarrow> nat \<times> jsstring list" where
  "criterion ok msg st =
     (case st of (sc, fb) \<Rightarrow>
        if ok then (sc + 1, fb)
        else (sc, case msg of None \<Rightarrow> fb | Some m \<Rightarrow> fb @ [m]))"

definition checkPasswordStrength :: "jsstring \<Rightarrow> strength" where
  "checkPasswordStrength password =
     (let st = (0, []);
          st = criterion (8 \<le> length password) (Some MSG_LONGUEUR) st;
          st = criterion (test_upper password) (Some MSG_MAJUSCULE) st;
          st = criterion (test_lower password) (Some MSG_MINUSCULE) st;
          st = criterion (test_digit password) (Some MSG_CHIFFRE) st;
          st = criterion (test_special password) (Some MSG_SPECIAL) st;
          st = criterion (12 \<le> length password) None st
      in \<lparr>score = fst st,
          feedback = (if 0 < length (snd st) then snd st else [MSG_FORT])\<rparr>)"

text \<open>
  The feedback as the corrected claim words it: the messages of the failed criteria among
  the five that carry a message, in the order of the source.
\<close>

definition failed_messages :: "jsstring \<Rightarrow> jsstring list" where
  "failed_messages password =
     map snd (filter (\<lambda>(ok, m). \<not> ok)
       [(8 \<le> length password, MSG_LONGUEUR),
        (test_upper password, MSG_MAJUSCULE),
        (test_lower password, MSG_MINUSCULE),
        (test_digit password, MSG_CHIFFRE),
        (test_special password, MSG_SPECIAL)])"

definition five_criteria :: "jsstring \<Rightarrow> bool" where
  "five_criteria password \<longleftrightarrow>
     8 \<le> length password \<and> test_upper password \<and> test_lower password \<and>
     test_digit password \<and> test_special password"

lemma messages_not_fort:
  "MSG_LONGUEUR \<noteq> MSG_FORT" "MSG_MAJUSCULE \<noteq> MSG_FORT" "MSG_MINUSCULE \<noteq> MSG_FORT"
  "MSG_CHIFFRE \<noteq> MSG_FORT" "MSG_SPECIAL \<noteq> MSG_FORT"
  by (simp_all add: MSG_LONGUEUR_def MSG_MAJUSCULE_def MSG_MINUSCULE_def MSG_CHIFFRE_def
      MSG_SPECIAL_def MSG_FORT_def js_def)

lemma feedback_eq_failed:
  "feedback (checkPasswordStrength p) =
     (if failed_messages p = [] then [MSG_FORT] else failed_messages p)"
  by (simp add: checkPasswordStrength_def criterion_def failed_messages_def Let_def)

lemma failed_messages_empty: "failed_messages p = [] \<longleftrightarrow> five_criteria p"
  by (simp add: failed_messages_def five_criteria_def)

lemma failed_messages_not_fort: "failed_messages p \<noteq> [MSG_FORT]"
  using messages_not_fort by (auto simp add: failed_messages_def)

lemma score_bounds:
  "score (checkPasswordStrength p) \<le> 6"
  "five_criteria p \<Longrightarrow> 5 \<le> score (checkPasswordStrength p)"
  "score (checkPasswordStrength p) = 6 \<Longrightarrow> five_criteria p"
  by (simp_all add: checkPasswordStrength_def criterion_def five_criteria_def Let_def
      split: if_splits)

text \<open>
  C8 (as stated): the sentinel list is returned exactly when the score is 6. It fails on
  an eleven-character password with all four character classes: the score is 5 (only the
  bonus for twelve characters is missing, and that criterion has no message), and the
  feedback is the sentinel.
\<close>

theorem C8_sentinel_at_score_5:
  "score (checkPasswordStrength (js ''StrongP@ss1'')) = 5 \<and>
   feedback (checkPasswordStrength (js ''StrongP@ss1'')) = [MSG_FORT]"
  by (simp add: checkPasswordStrength_def criterion_def Let_def js_def test_upper_def
      test_lower_def test_digit_def test_special_def is_AZ_def is_az_def is_09_def in_range_def)

text \<open>
  C8 (amended): the feedback lists one message for every failed criterion among the five
  that carry a message (length at least 8, uppercase, lowercase, digit, special character),
  in that order; it is the one-element sentinel list exactly when none of those five fails,
  which includes every password of score 6 and implies a score of at least 5; it is never
  empty.
\<close>

theorem C8_feedback:
  "feedback (checkPasswordStrength p) =
     (if failed_messages p = [] then [MSG_FORT] else failed_messages p) \<and>
   feedback (checkPasswordStrength p) \<noteq> [] \<and>
   (feedback (checkPasswordStrength p) = [MSG_FORT] \<longleftrightarrow> five_criteria p) \<and>
   (score (checkPasswordStrength p) = 6 \<longrightarrow> feedback (checkPasswordStrength p) = [MSG_FORT]) \<and>
   (feedback (checkPasswordStrength p) = [MSG_FORT] \<longrightarrow> 5 \<le> score (checkPasswordStrength p))"
proof -
  have sent: "feedback (checkPasswordStrength p) = [MSG_FORT] \<longleftrightarrow> five_criteria p"
    using failed_messages_not_fort [of p] failed_messages_empty [of p]
    by (simp add: feedback_eq_failed)
  have nonempty: "feedback (checkPasswordStrength p) \<noteq> []"
    by (simp add: feedback_eq_failed)
  show ?thesis
    using sent nonempty score_bounds [of p] feedback_eq_failed [of p] by blast
qed

theorem C8_feedback_witness:
  "feedback (checkPasswordStrength (js ''weak'')) =
     [MSG_LONGUEUR, MSG_MAJUSCULE, MSG_CHIFFRE, MSG_SPECIAL] \<and>
   feedback (checkPasswordStrength (js ''StrongP@ssw0rd'')) = [MSG_FORT]"
proof -
  have weak: "failed_messages (js ''weak'') = [MSG_LONGUEUR, MSG_MAJUSCULE, MSG_CHIFFRE, MSG_SPECIAL]"
    by (simp add: failed_messages_def js_def test_upper_def test_lower_def test_digit_def
        test_special_def is_AZ_def is_az_def is_09_def in_range_def)
  have strong: "five_criteria (js ''StrongP@ssw0rd'')"
    by (simp add: five_criteria_def js_def test_upper_def test_lower_def test_digit_def
        test_special_def is_AZ_def is_az_def is_09_def in_range_def)
  have "feedback (checkPasswordStrength (js ''weak'')) =
      (if failed_messages (js ''weak'') = [] then [MSG_FORT] else failed_messages (js ''weak''))"
    using C8_feedback [of "js ''weak''"] by (rule conjunct1)
  then have w: "feedback (checkPasswordStrength (js ''weak'')) =
      [MSG_LONGUEUR, MSG_MAJUSCULE, MSG_CHIFFRE, MSG_SPECIAL]"
    by (simp add: weak)
  have s: "feedback (checkPasswordStrength (js ''StrongP@ssw0rd'')) = [MSG_FORT]"
    using C8_feedback [of "js ''StrongP@ssw0rd''"] strong by blast
  show ?thesis using w s by (rule conjI)
qed

section \<open>Errors\<close>

text \<open>
  The error classes of \<open>types/index.ts\<close> (\<open>AppError\<close> carries a message and an HTTP
  status; the subclasses fix the status), and the JavaScript exceptions that the modelled
  code can raise by itself.
\<close>

datatype exn =
    AppError jsstring nat
  | ValidationError jsstring
  | AuthenticationError jsstring
  | AuthorizationError jsstring
  | NotFoundError jsstring
  | TypeError
  | ReferenceError
  | CryptoError

fun status_of :: "exn \<Rightarrow> nat" where
  "status_of (AppError m st) = st"
| "status_of (ValidationError m) = 400"
| "status_of (AuthenticationError m) = 401"
| "status_of (AuthorizationError m) = 403"
| "status_of (NotFoundError m) = 404"
| "status_of e = 500"

section \<open>Password generation (\<open>passwordService.generateSecurePassword\<close>)\<close>

definition lowercase :: jsstring where
  "lowercase = js ''abcdefghijklmnopqrstuvwxyz''"

definition uppercase :: jsstring where
  "uppercase = js ''ABCDEFGHIJKLMNOPQRSTUVWXYZ''"

definition numbers :: jsstring where
  "numbers = js ''0123456789''"

definition symbols :: jsstring where
  "symbols = js ''!@#$%^&*()_+-=[]{}|;:,.<>?''"

definition allChars :: jsstring where
  "allChars = lowercase @ uppercase @ numbers @ symbols"

text \<open>
  \<open>array[Math.floor(Math.random() * array.length)]\<close>, with \<open>r\<close> the value drawn by
  \<open>Math.random()\<close>. Reading an array out of range gives \<open>undefined\<close>, which is
  \<open>None\<close>.
\<close>

definition getRandomElement :: "real \<Rightarrow> 'a list \<Rightarrow> 'a option" where
  "getRandomElement r array =
     (let i = \<lfloor>r * real (length array)\<rfloor>
      in if 0 \<le> i \<and> i < int (length array) then Some (array ! nat i) else None)"

text \<open>
  The loop \<open>while (password.length < length) password.push(getRandomElement(allChars))\<close>;
  \<open>rnd k\<close> is the value of the \<open>k\<close>-th call of \<open>Math.random()\<close>.
\<close>

function fill_password ::
  "(nat \<Rightarrow> real) \<Rightarrow> nat \<Rightarrow> int \<Rightarrow> code_unit option list \<Rightarrow> code_unit option list" where
  "fill_password rnd k len password =
     (if int (length password) < len
      then fill_password rnd (Suc k) len (password @ [getRandomElement (rnd k) allChars])
      else password)"
  by pat_completeness auto
termination
  by (relation "measure (\<lambda>(rnd, k, len, password). nat (len - int (length password)))") auto

text \<open>\<open>Array.prototype.join('')\<close> on one-character strings: \<open>undefined\<close> joins as the empty string.\<close>

definition join_chars :: "code_unit option list \<Rightarrow> jsstring" where
  "join_chars xs = concat (map (\<lambda>x. case x of None \<Rightarrow> [] | Some c \<Rightarrow> [c]) xs)"

text \<open>
  \<open>generateSecurePassword(length)\<close>. The source has no \<open>throw\<close>; the result is a sum only
  so that a claim about an error can be stated. \<open>shuffle\<close> is
  \<open>Array.prototype.sort\<close> under the comparator \<open>() => Math.random() - 0.5\<close>: the engine's
  sorting algorithm and the comparator's draws decide the permutation, so it is a
  parameter.
\<close>

definition generateSecurePassword ::
  "(nat \<Rightarrow> real) \<Rightarrow> (code_unit option list \<Rightarrow> code_unit option list) \<Rightarrow> int \<Rightarrow> exn + jsstring" where
  "generateSecurePassword rnd shuffle len =
     (let password =
            [getRandomElement (rnd 0) lowercase,
             getRandomElement (rnd 1) uppercase,
             getRandomElement (rnd 2) numbers,
             getRandomElement (rnd 3) symbols];
          password = fill_password rnd 4 len password
      in Inr (join_chars (shuffle password)))"

lemma getRandomElement_in:
  assumes "0 \<le> r" "r < 1" "xs \<noteq> []"
  shows "\<exists>x \<in> set xs. getRandomElement r xs = Some x"
proof -
  let ?i = "\<lfloor>r * real (length xs)\<rfloor>"
  have pos: "0 < real (length xs)" using assms(3) by simp
  have lo: "0 \<le> ?i" using assms(1) by simp
  have "r * real (length xs) < real (length xs)"
    using assms(2) pos by simp
  then have hi: "?i < int (length xs)" by linarith
  then have "nat ?i < length xs" using lo by linarith
  then have mem: "xs ! nat ?i \<in> set xs" by simp
  have "getRandomElement r xs = Some (xs ! nat ?i)"
    using lo hi by (simp add: getRandomElement_def Let_def)
  with mem show ?thesis by blast
qed

lemma class_members:
  "\<forall>c \<in> set lowercase. is_az c"
  "\<forall>c \<in> set uppercase. is_AZ c"
  "\<forall>c \<in> set numbers. is_09 c"
  "\<forall>c \<in> set symbols. \<not> (is_AZ c \<or> is_az c \<or> is_09 c)"
  by (simp_all add: lowercase_def uppercase_def numbers_def symbols_def js_def
      is_AZ_def is_az_def is_09_def in_range_def)

lemma class_nonempty:
  "lowercase \<noteq> []" "uppercase \<noteq> []" "numbers \<noteq> []" "symbols \<noteq> []"
  by (simp_all add: lowercase_def uppercase_def numbers_def symbols_def js_def)

lemma join_chars_Some: "join_chars (map Some cs) = cs"
  by (induction cs) (simp_all add: join_chars_def)

lemma mset_map_Some:
  assumes "mset ys = mset (map Some cs)"
  shows "\<exists>ds. ys = map Some ds \<and> mset ds = mset cs"
proof -
  have "set ys = Some ` set cs"
    using assms by (metis mset_eq_setD set_map)
  then have "\<forall>y \<in> set ys. y \<noteq> None" by auto
  then have ys: "ys = map Some (map the ys)"
    by (induction ys) auto
  have "mset (map the ys) = image_mset the (mset (map Some cs))"
    using assms by (metis mset_map)
  then have "mset (map the ys) = mset cs"
    by (simp add: multiset.map_comp comp_def)
  with ys show ?thesis by blast
qed

text \<open>
  C7 (as stated): a requested length below 4 raises a ValidationError. The source has no
  guard on \<open>length\<close>: for \<open>length = 2\<close> the loop body never runs and the four guaranteed
  characters are returned.
\<close>

theorem C7_length_2_returns_password:
  "generateSecurePassword (\<lambda>k. 0) (\<lambda>xs. xs) 2 = Inr (js ''aA0!'')"
  by (simp add: generateSecurePassword_def getRandomElement_def join_chars_def Let_def
      lowercase_def uppercase_def numbers_def symbols_def js_def)

text \<open>
  C7 (amended): for every requested length below 4 the generator raises nothing and
  returns a password of exactly four characters, holding one lowercase letter, one
  uppercase letter, one digit and one symbol. The hypotheses are the contracts of the
  engine: \<open>Math.random()\<close> lies in \<open>[0, 1)\<close>, and \<open>sort\<close> permutes the array.
\<close>

theorem C7_short_length:
  assumes "len < 4"
    and "\<forall>k. 0 \<le> rnd k \<and> rnd k < 1"
    and "\<forall>xs. mset (shuffle xs) = mset xs"
  shows "\<exists>pw. generateSecurePassword rnd shuffle len = Inr pw \<and> length pw = 4 \<and>
           test_lower pw \<and> test_upper pw \<and> test_digit pw \<and> test_special pw"
proof -
  obtain a where a: "a \<in> set lowercase" "getRandomElement (rnd 0) lowercase = Some a"
    using getRandomElement_in [of "rnd 0" lowercase] assms(2) class_nonempty by blast
  obtain b where b: "b \<in> set uppercase" "getRandomElement (rnd 1) uppercase = Some b"
    using getRandomElement_in [of "rnd 1" uppercase] assms(2) class_nonempty by blast
  obtain c where c: "c \<in> set numbers" "getRandomElement (rnd 2) numbers = Some c"
    using getRandomElement_in [of "rnd 2" numbers] assms(2) class_nonempty by blast
  obtain d where d: "d \<in> set symbols" "getRandomElement (rnd 3) symbols = Some d"
    using getRandomElement_in [of "rnd 3" symbols] assms(2) class_nonempty by blast
  have fill: "fill_password rnd 4 len (map Some [a, b, c, d]) = map Some [a, b, c, d]"
    using assms(1) by (subst fill_password.simps) simp
  have "mset (shuffle (map Some [a, b, c, d])) = mset (map Some [a, b, c, d])"
    using assms(3) by blast
  then obtain ds where ds: "shuffle (map Some [a, b, c, d]) = map Some ds"
      "mset ds = mset [a, b, c, d]"
    using mset_map_Some by blast
  have res: "generateSecurePassword rnd shuffle len = Inr ds"
    using a(2) b(2) c(2) d(2) fill ds(1)
    by (simp add: generateSecurePassword_def Let_def join_chars_Some)
  have len4: "length ds = 4"
    using ds(2) by (metis length_Cons list.size(3) mset_eq_length numeral_Bit0 numeral_One
        Suc_eq_plus1 add_Suc_right one_add_one numeral_2_eq_2 add_2_eq_Suc')
  have mem: "set ds = {a, b, c, d}"
    using ds(2) by (metis mset_eq_setD list.simps(15) empty_set)
  have "test_lower ds" "test_upper ds" "test_digit ds" "test_special ds"
    using mem a(1) b(1) c(1) d(1) class_members
    by (auto simp add: test_lower_def test_upper_def test_digit_def test_special_def
        list_ex_iff)
  with res len4 show ?thesis by blast
qed

theorem C7_short_length_witness:
  "\<exists>pw. generateSecurePassword (\<lambda>k. 1 / 2) rev 2 = Inr pw \<and> length pw = 4 \<and>
     test_lower pw \<and> test_upper pw \<and> test_digit pw \<and> test_special pw"
  using C7_short_length [of 2 "\<lambda>k. 1 / 2" rev] by simp

section \<open>The database and the effects of a request\<close>

text \<open>
  A row of the password table (\<open>PasswordModel\<close> in \<open>types/index.ts\<close>; the table
  \<open>mots_de_passe\<close> of \<open>init.sql\<close>). The column \<open>notes\<close>, here \<open>row_notes\<close>, is
  nullable. Timestamps are ticks of the database clock.
\<close>

record password_row =
  row_id :: int
  utilisateur_id :: int
  site_web :: jsstring
  identifiant :: jsstring
  mot_de_passe_crypte :: jsstring
  row_notes :: "jsstring option"
  cree_le :: nat
  modifie_le :: nat

record session_row =
  session_utilisateur_id :: int
  session_token :: jsstring
  expire_le :: nat

record utilisateur_row =
  utilisateur_row_id :: int
  code_pin_hash :: jsstring

text \<open>
  The database: the tables the modelled statements touch, the \<open>SERIAL\<close> sequences of the two
  password tables, the clock (\<open>NOW()\<close>, \<open>CURRENT_TIMESTAMP\<close>), and whether the server
  answers (when it does not, the pool rejects every statement).
\<close>

record database =
  mots_de_passe :: "password_row list"
  mots_de_passe_seq :: int
  mots_de_passe_stockes :: "password_row list"
  mots_de_passe_stockes_seq :: int
  sessions :: "session_row list"
  utilisateurs :: "utilisateur_row list"
  horloge :: nat
  disponible :: bool

datatype table = T_sessions | T_utilisateurs | T_mots_de_passe | T_mots_de_passe_stockes

text \<open>What a request does besides answering, in order: the calls that the claims speak of.\<close>

datatype event =
    Query table
  | Bcrypt_genSalt
  | Bcrypt_hash
  | Bcrypt_compare
  | Codec_chiffrer
  | Codec_dechiffrer
  | Jwt_verify
  | Log_info string
  | Log_error string

record world =
  db :: database
  trace :: "event list"

definition emit :: "event \<Rightarrow> world \<Rightarrow> world" where
  "emit e w = w\<lparr>trace := trace w @ [e]\<rparr>"

text \<open>The store and the codec, as the claims name them.\<close>

fun is_store_or_codec :: "event \<Rightarrow> bool" where
  "is_store_or_codec (Query T_mots_de_passe) = True"
| "is_store_or_codec (Query T_mots_de_passe_stockes) = True"
| "is_store_or_codec Bcrypt_genSalt = True"
| "is_store_or_codec Bcrypt_hash = True"
| "is_store_or_codec Codec_chiffrer = True"
| "is_store_or_codec Codec_dechiffrer = True"
| "is_store_or_codec e = False"

text \<open>
  The \<open>bcrypt\<close> package is not part of the repository: its three functions are
  parameters. \<open>genSalt\<close> is given the rounds.
\<close>

record bcrypt_lib =
  genSalt :: "nat \<Rightarrow> jsstring"
  hash :: "jsstring \<Rightarrow> jsstring \<Rightarrow> jsstring"
  compare :: "jsstring \<Rightarrow> jsstring \<Rightarrow> bool"

record config =
  JWT_SECRET :: jsstring
  BCRYPT_ROUNDS :: nat

section \<open>The password service (\<open>services/password.ts\<close>)\<close>

definition MSG_NON_TROUVE :: jsstring where
  "MSG_NON_TROUVE = js ''Mot de passe non trouv'' @ [0xE9]"

definition MSG_AUCUNE_DONNEE :: jsstring where
  "MSG_AUCUNE_DONNEE =
     js ''Aucune donn'' @ [0xE9] @ js ''e '' @ [0xE0] @ js '' mettre '' @ [0xE0] @ js '' jour''"

definition MSG_ERREUR_BD :: jsstring where
  "MSG_ERREUR_BD = js ''Erreur de base de donn'' @ [0xE9] @ js ''es''"

text \<open>
  The service sends its statements through \<open>db.query\<close> of \<open>utils/db.ts\<close>. When the
  pool rejects the statement, \<open>db.query\<close> logs \<open>query_error\<close> and throws
  \<open>AppError('Erreur de base de donn\'ees', 500)\<close>; the \<open>catch\<close> of the calling method
  then logs under its own name (\<open>journal\<close>) and throws the error again.
\<close>

definition query_rejected :: "string \<Rightarrow> world \<Rightarrow> (exn + 'a) \<times> world" where
  "query_rejected journal w =
     (Inl (AppError MSG_ERREUR_BD 500), emit (Log_error journal) (emit (Log_error ''query_error'') w))"

text \<open>The argument of \<open>create\<close>; \<open>notes\<close> is optional (\<open>undefined\<close> is stored as \<open>NULL\<close>).\<close>

record create_data =
  data_utilisateur_id :: int
  data_site_web :: jsstring
  data_identifiant :: jsstring
  data_mot_de_passe :: jsstring
  data_notes :: "jsstring option"

text \<open>
  \<open>INSERT INTO mots_de_passe (...) VALUES ($1, ..., $5) RETURNING *\<close>: the id comes from
  the sequence, both timestamps default to the clock.
\<close>

definition insert_mot_de_passe ::
  "int \<Rightarrow> jsstring \<Rightarrow> jsstring \<Rightarrow> jsstring \<Rightarrow> jsstring option \<Rightarrow> database \<Rightarrow> password_row \<times> database" where
  "insert_mot_de_passe uid site ident crypte nts d =
     (let row = \<lparr>row_id = mots_de_passe_seq d, utilisateur_id = uid, site_web = site,
                  identifiant = ident, mot_de_passe_crypte = crypte, row_notes = nts,
                  cree_le = horloge d, modifie_le = horloge d\<rparr>
      in (row, d\<lparr>mots_de_passe := mots_de_passe d @ [row],
                 mots_de_passe_seq := mots_de_passe_seq d + 1\<rparr>))"

text \<open>
  \<open>create\<close>: the secret is hashed with \<open>bcrypt\<close>, then the row is inserted. An error
  thrown inside the \<open>try\<close> is logged and thrown again; here that is the rejection of the
  query.
\<close>

definition create :: "bcrypt_lib \<Rightarrow> config \<Rightarrow> create_data \<Rightarrow> world \<Rightarrow> (exn + password_row) \<times> world" where
  "create bc cfg data w =
     (let w = emit Bcrypt_genSalt w;
          salt = genSalt bc (BCRYPT_ROUNDS cfg);
          w = emit Bcrypt_hash w;
          motDePasseCrypte = hash bc (data_mot_de_passe data) salt;
          w = emit (Query T_mots_de_passe) w
      in if \<not> disponible (db w)
         then query_rejected ''password_creation_error'' w
         else
           (let (row, d) = insert_mot_de_passe (data_utilisateur_id data) (data_site_web data)
                             (data_identifiant data) motDePasseCrypte (data_notes data) (db w);
                w = w\<lparr>db := d\<rparr>;
                w = emit (Log_info ''password_created'') w
            in (Inr row, w)))"

text \<open>\<open>SELECT * FROM mots_de_passe WHERE id = $1 AND utilisateur_id = $2\<close>.\<close>

definition select_by_id_and_owner :: "int \<Rightarrow> int \<Rightarrow> password_row list \<Rightarrow> password_row list" where
  "select_by_id_and_owner i uid rows =
     filter (\<lambda>r. row_id r = i \<and> utilisateur_id r = uid) rows"

text \<open>
  \<open>findById\<close>: \<open>rows[0]\<close> of the selection, or \<open>AppError('Mot de passe non trouv\'e', 404)\<close>
  when it is empty; the error is logged and thrown again.
\<close>

definition findById :: "int \<Rightarrow> int \<Rightarrow> world \<Rightarrow> (exn + password_row) \<times> world" where
  "findById i uid w =
     (let w = emit (Query T_mots_de_passe) w
      in if \<not> disponible (db w)
         then query_rejected ''password_fetch_error'' w
         else
           (case select_by_id_and_owner i uid (mots_de_passe (db w)) of
              [] \<Rightarrow> (Inl (AppError MSG_NON_TROUVE 404), emit (Log_error ''password_fetch_error'') w)
            | row # rest \<Rightarrow> (Inr row, w)))"

text \<open>
  The argument of \<open>update\<close>: every field is optional. \<open>if (data.site_web)\<close> is JavaScript
  truthiness: an absent or an empty string is false.
\<close>

record update_data =
  upd_site_web :: "jsstring option"
  upd_identifiant :: "jsstring option"
  upd_mot_de_passe :: "jsstring option"
  upd_notes :: "jsstring option"

fun truthy :: "jsstring option \<Rightarrow> bool" where
  "truthy None = False"
| "truthy (Some s) = (s \<noteq> [])"

datatype colonne = Col_site_web | Col_identifiant | Col_mot_de_passe_crypte | Col_notes

datatype sql_value = SqlInt int | SqlText jsstring | SqlNull

text \<open>
  The statement that \<open>update\<close> builds: \<open>updateFields\<close> holds the assignments
  \<open>colonne = $n\<close>, \<open>values\<close> the parameters (\<open>$1\<close> is \<open>values[0]\<close>).
\<close>

record update_statement =
  updateFields :: "(colonne \<times> nat) list"
  values_sql :: "sql_value list"
  valueIndex :: nat

definition push_field :: "colonne \<Rightarrow> jsstring \<Rightarrow> update_statement \<Rightarrow> update_statement" where
  "push_field col v st =
     st\<lparr>updateFields := updateFields st @ [(col, valueIndex st)],
        values_sql := values_sql st @ [SqlText v],
        valueIndex := valueIndex st + 1\<rparr>"

definition parameter :: "sql_value list \<Rightarrow> nat \<Rightarrow> sql_value option" where
  "parameter vs n = (if 1 \<le> n \<and> n \<le> length vs then Some (vs ! (n - 1)) else None)"

fun assign :: "colonne \<Rightarrow> sql_value option \<Rightarrow> password_row \<Rightarrow> password_row" where
  "assign Col_site_web (Some (SqlText v)) r = r\<lparr>site_web := v\<rparr>"
| "assign Col_identifiant (Some (SqlText v)) r = r\<lparr>identifiant := v\<rparr>"
| "assign Col_mot_de_passe_crypte (Some (SqlText v)) r = r\<lparr>mot_de_passe_crypte := v\<rparr>"
| "assign Col_notes (Some (SqlText v)) r = r\<lparr>row_notes := Some v\<rparr>"
| "assign Col_notes (Some SqlNull) r = r\<lparr>row_notes := None\<rparr>"
| "assign col v r = r"

text \<open>
  \<open>UPDATE mots_de_passe SET ..., modifie_le = CURRENT_TIMESTAMP WHERE id = $1 AND
  utilisateur_id = $2 RETURNING *\<close>: the new table and the rows returned.
\<close>

definition update_row :: "update_statement \<Rightarrow> nat \<Rightarrow> password_row \<Rightarrow> password_row" where
  "update_row st now r =
     (fold (\<lambda>(col, n). assign col (parameter (values_sql st) n)) (updateFields st) r)
       \<lparr>modifie_le := now\<rparr>"

definition run_update :: "update_statement \<Rightarrow> int \<Rightarrow> int \<Rightarrow> database \<Rightarrow> password_row list \<times> database" where
  "run_update st i uid d =
     (let hit = (\<lambda>r. row_id r = i \<and> utilisateur_id r = uid);
          rows = map (\<lambda>r. if hit r then update_row st (horloge d) r else r) (mots_de_passe d)
      in (filter hit rows, d\<lparr>mots_de_passe := rows\<rparr>))"

text \<open>The first block of \<open>update\<close>: the new secret is hashed only when one is given.\<close>

definition hash_if_given ::
  "bcrypt_lib \<Rightarrow> config \<Rightarrow> update_data \<Rightarrow> world \<Rightarrow> jsstring option \<times> world" where
  "hash_if_given bc cfg data w =
     (if truthy (upd_mot_de_passe data)
      then (let w = emit Bcrypt_genSalt w;
                salt = genSalt bc (BCRYPT_ROUNDS cfg);
                w = emit Bcrypt_hash w
            in (Some (hash bc (the (upd_mot_de_passe data)) salt), w))
      else (None, w))"

text \<open>The four \<open>if\<close> blocks that fill \<open>updateFields\<close> and \<open>values\<close>.\<close>

definition build_update :: "int \<Rightarrow> int \<Rightarrow> update_data \<Rightarrow> jsstring option \<Rightarrow> update_statement" where
  "build_update i uid data motDePasseCrypte =
     (let st = \<lparr>updateFields = [], values_sql = [SqlInt i, SqlInt uid], valueIndex = 3\<rparr>;
          st = (if truthy (upd_site_web data)
                then push_field Col_site_web (the (upd_site_web data)) st else st);
          st = (if truthy (upd_identifiant data)
                then push_field Col_identifiant (the (upd_identifiant data)) st else st);
          st = (if truthy motDePasseCrypte
                then push_field Col_mot_de_passe_crypte (the motDePasseCrypte) st else st);
          st = (if upd_notes data \<noteq> None
                then push_field Col_notes (the (upd_notes data)) st else st)
      in st)"

text \<open>
  \<open>update\<close>: with no assignment, \<open>AppError('Aucune donn\'ee \`a mettre \`a jour', 400)\<close> is
  thrown before any statement is sent; with no row updated, \<open>AppError(..., 404)\<close>. Every
  error is logged and thrown again.
\<close>

definition update :: "bcrypt_lib \<Rightarrow> config \<Rightarrow> int \<Rightarrow> int \<Rightarrow> update_data \<Rightarrow> world \<Rightarrow> (exn + password_row) \<times> world" where
  "update bc cfg i uid data w =
     (let (motDePasseCrypte, w) = hash_if_given bc cfg data w;
          st = build_update i uid data motDePasseCrypte
      in if length (updateFields st) = 0
         then (Inl (AppError MSG_AUCUNE_DONNEE 400), emit (Log_error ''password_update_error'') w)
         else
           (let w = emit (Query T_mots_de_passe) w
            in if \<not> disponible (db w)
               then query_rejected ''password_update_error'' w
               else
                 (let (rows, d) = run_update st i uid (db w);
                      w = w\<lparr>db := d\<rparr>
                  in case rows of
                       [] \<Rightarrow> (Inl (AppError MSG_NON_TROUVE 404),
                              emit (Log_error ''password_update_error'') w)
                     | row # rest \<Rightarrow> (Inr row, emit (Log_info ''password_updated'') w))))"

text \<open>An update payload with no usable field, in the words of the claim.\<close>

definition no_usable_field :: "update_data \<Rightarrow> bool" where
  "no_usable_field data \<longleftrightarrow>
     \<not> truthy (upd_site_web data) \<and> \<not> truthy (upd_identifiant data) \<and>
     \<not> truthy (upd_mot_de_passe data) \<and> upd_notes data = None"

definition empty_update :: update_data where
  "empty_update = \<lparr>upd_site_web = None, upd_identifiant = None, upd_mot_de_passe = None,
                    upd_notes = None\<rparr>"

text \<open>
  Stand-ins to run the model on concrete inputs: a \<open>bcrypt\<close> whose hash is the salt
  followed by the sum of the password's code units, a configuration, and a database with
  two users' rows; the PIN of user 10 is \<open>123456\<close>.
\<close>

definition toy_bcrypt :: bcrypt_lib where
  "toy_bcrypt = \<lparr>genSalt = (\<lambda>rounds. js ''$2b$10$sel''),
                  hash = (\<lambda>p salt. salt @ js ''.'' @ [sum_list p]),
                  compare = (\<lambda>p h. h = js ''$2b$10$sel.'' @ [sum_list p])\<rparr>"

definition config0 :: config where
  "config0 = \<lparr>JWT_SECRET = js ''votre_secret_jwt'', BCRYPT_ROUNDS = 10\<rparr>"

definition row_alice :: password_row where
  "row_alice = \<lparr>row_id = 1, utilisateur_id = 10, site_web = js ''example.com'',
                 identifiant = js ''alice'', mot_de_passe_crypte = js ''$2b$10$sel.x'',
                 row_notes = None, cree_le = 5, modifie_le = 5\<rparr>"

definition row_bob :: password_row where
  "row_bob = \<lparr>row_id = 2, utilisateur_id = 20, site_web = js ''example.org'',
               identifiant = js ''bob'', mot_de_passe_crypte = js ''$2b$10$sel.y'',
               row_notes = Some (js ''perso''), cree_le = 6, modifie_le = 6\<rparr>"

definition database0 :: database where
  "database0 = \<lparr>mots_de_passe = [row_alice, row_bob], mots_de_passe_seq = 3,
                  mots_de_passe_stockes = [], mots_de_passe_stockes_seq = 1,
                  sessions = [\<lparr>session_utilisateur_id = 10, session_token = js ''tok-alice'',
                               expire_le = 100\<rparr>],
                  utilisateurs = [\<lparr>utilisateur_row_id = 10,
                                   code_pin_hash = js ''$2b$10$sel.'' @ [309]\<rparr>],
                  horloge = 7, disponible = True\<rparr>"

definition world0 :: world where
  "world0 = \<lparr>db = database0, trace = []\<rparr>"

lemma push_field_fields: "updateFields (push_field col v st) \<noteq> []"
  by (simp add: push_field_def)

lemma build_update_empty:
  "updateFields (build_update i uid data m) = [] \<longleftrightarrow>
     \<not> truthy (upd_site_web data) \<and> \<not> truthy (upd_identifiant data) \<and> \<not> truthy m \<and>
     upd_notes data = None"
  by (simp add: build_update_def Let_def push_field_fields)

lemma hash_if_given_none:
  "\<not> truthy (upd_mot_de_passe data) \<Longrightarrow> hash_if_given bc cfg data w = (None, w)"
  by (simp add: hash_if_given_def)

lemma hash_if_given_some:
  "truthy (upd_mot_de_passe data) \<Longrightarrow>
   hash bc (the (upd_mot_de_passe data)) (genSalt bc (BCRYPT_ROUNDS cfg)) \<noteq> [] \<Longrightarrow>
   \<exists>h w'. hash_if_given bc cfg data w = (Some h, w') \<and> truthy (Some h)"
  by (simp add: hash_if_given_def Let_def)

lemma update_no_field:
  assumes "no_usable_field data"
  shows "update bc cfg i uid data w =
    (Inl (AppError MSG_AUCUNE_DONNEE 400), emit (Log_error ''password_update_error'') w)"
proof -
  have h: "hash_if_given bc cfg data w = (None, w)"
    using assms by (simp add: hash_if_given_none no_usable_field_def)
  have e: "updateFields (build_update i uid data None) = []"
    using assms by (simp only: build_update_empty no_usable_field_def) simp
  show ?thesis
    by (simp add: update_def h Let_def e)
qed

lemma update_result_cases:
  assumes "updateFields (build_update i uid data m) \<noteq> []"
    and "hash_if_given bc cfg data w = (m, w')"
  shows "fst (update bc cfg i uid data w) \<noteq> Inl (AppError MSG_AUCUNE_DONNEE 400)"
proof -
  let ?st = "build_update i uid data m"
  let ?w = "emit (Query T_mots_de_passe) w'"
  show ?thesis
  proof (cases "disponible (db ?w)")
    case False
    then show ?thesis using assms by (simp add: update_def Let_def query_rejected_def)
  next
    case True
    obtain rows d where r: "run_update ?st i uid (db ?w) = (rows, d)"
      by (cases "run_update ?st i uid (db ?w)")
    show ?thesis
      using assms True r by (cases rows) (simp_all add: update_def Let_def)
  qed
qed

lemma update_some_field:
  assumes "\<forall>p s. hash bc p s \<noteq> []" "\<not> no_usable_field data"
  shows "fst (update bc cfg i uid data w) \<noteq> Inl (AppError MSG_AUCUNE_DONNEE 400)"
proof (cases "truthy (upd_mot_de_passe data)")
  case True
  then obtain h w' where h: "hash_if_given bc cfg data w = (Some h, w')" "truthy (Some h)"
    using hash_if_given_some assms(1) by blast
  have "updateFields (build_update i uid data (Some h)) \<noteq> []"
    using h(2) by (simp only: build_update_empty) simp
  then show ?thesis using update_result_cases h(1) by blast
next
  case False
  then have h: "hash_if_given bc cfg data w = (None, w)" by (rule hash_if_given_none)
  have "updateFields (build_update i uid data None) \<noteq> []"
    using False assms(2) by (simp only: build_update_empty no_usable_field_def) simp
  then show ?thesis using update_result_cases h by blast
qed

text \<open>
  C10: \<open>update\<close> raises \<open>AppError('Aucune donn\'ee \`a mettre \`a jour', 400)\<close> exactly when
  the payload has no usable field (\<open>site_web\<close>, \<open>identifiant\<close> and \<open>mot_de_passe\<close> absent
  or empty, \<open>notes\<close> undefined). When it does, the only effect is the line of the error
  log: no statement is sent to the database, \<open>bcrypt\<close> is not called, and the database is
  unchanged. The empty payload \<open>{}\<close> is such a payload. The hypothesis is the contract of
  \<open>bcrypt.hash\<close>: a hash is never the empty string.
\<close>

theorem C10_update_no_op:
  assumes "\<forall>p s. hash bc p s \<noteq> []"
  shows "(fst (update bc cfg i uid data w) = Inl (AppError MSG_AUCUNE_DONNEE 400)
            \<longleftrightarrow> no_usable_field data) \<and>
         (fst (update bc cfg i uid data w) = Inl (AppError MSG_AUCUNE_DONNEE 400) \<longrightarrow>
            snd (update bc cfg i uid data w) = emit (Log_error ''password_update_error'') w \<and>
            db (snd (update bc cfg i uid data w)) = db w \<and>
            trace (snd (update bc cfg i uid data w)) =
              trace w @ [Log_error ''password_update_error'']) \<and>
         update bc cfg i uid empty_update w =
           (Inl (AppError MSG_AUCUNE_DONNEE 400), emit (Log_error ''password_update_error'') w)"
proof -
  have iff: "fst (update bc cfg i uid data w) = Inl (AppError MSG_AUCUNE_DONNEE 400)
      \<longleftrightarrow> no_usable_field data"
    using update_some_field [OF assms, of data cfg i uid w] update_no_field [of data bc cfg i uid w]
    by auto
  have eff: "no_usable_field data \<Longrightarrow>
      snd (update bc cfg i uid data w) = emit (Log_error ''password_update_error'') w \<and>
      db (snd (update bc cfg i uid data w)) = db w \<and>
      trace (snd (update bc cfg i uid data w)) = trace w @ [Log_error ''password_update_error'']"
    by (simp add: update_no_field emit_def)
  have "no_usable_field empty_update"
    by (simp add: no_usable_field_def empty_update_def)
  then have emp: "update bc cfg i uid empty_update w =
      (Inl (AppError MSG_AUCUNE_DONNEE 400), emit (Log_error ''password_update_error'') w)"
    by (rule update_no_field)
  show ?thesis using iff eff emp by blast
qed

theorem C10_update_no_op_witness:
  "fst (update toy_bcrypt config0 1 10 empty_update world0) =
     Inl (AppError MSG_AUCUNE_DONNEE 400) \<and>
   db (snd (update toy_bcrypt config0 1 10 empty_update world0)) = database0 \<and>
   trace (snd (update toy_bcrypt config0 1 10 empty_update world0)) =
     [Log_error ''password_update_error'']"
proof -
  have h: "\<forall>p s. hash toy_bcrypt p s \<noteq> []"
    by (simp add: toy_bcrypt_def js_def)
  have n: "no_usable_field empty_update"
    by (simp add: no_usable_field_def empty_update_def)
  show ?thesis
    using C10_update_no_op [OF h, of config0 1 10 empty_update world0] n
    by (simp add: world0_def emit_def)
qed

section \<open>The envelope codec (\<open>routes/motsDePasse.js\<close>)\<close>

subsection \<open>Strings, hexadecimal and UTF-8 as Node does them\<close>

text \<open>
  \<open>String.prototype.split\<close> with a one-unit separator, and reading the \<open>n\<close>-th element
  of the resulting array (\<open>undefined\<close>, here \<open>None\<close>, past its end).
\<close>

fun split_on :: "'a \<Rightarrow> 'a list \<Rightarrow> 'a list list" where
  "split_on sep [] = [[]]"
| "split_on sep (c # cs) =
     (if c = sep then [] # split_on sep cs
      else (case split_on sep cs of [] \<Rightarrow> [[c]] | seg # segs \<Rightarrow> (c # seg) # segs))"

definition element :: "'a list \<Rightarrow> nat \<Rightarrow> 'a option" where
  "element xs n = (if n < length xs then Some (xs ! n) else None)"

text \<open>
  \<open>Buffer.toString('hex')\<close> writes two lowercase digits per byte. \<open>Buffer.from(s, 'hex')\<close>
  reads pairs of digits of either case and stops at the first pair that is not
  hexadecimal; a trailing single character is dropped. The decoder looks a code unit up
  by its low byte only, so that a unit above \<open>0xFF\<close> is read as the character of its low
  byte (\<open>0x0136\<close> as the digit \<open>6\<close>).
\<close>

definition hex_digit :: "nat \<Rightarrow> code_unit" where
  "hex_digit n = (if n < 10 then 0x30 + of_nat n else 0x61 + of_nat (n - 10))"

definition low_byte :: "code_unit \<Rightarrow> nat" where
  "low_byte c = unat c mod 256"

definition hex_value :: "code_unit \<Rightarrow> nat option" where
  "hex_value c =
     (let x = low_byte c
      in if 0x30 \<le> x \<and> x \<le> 0x39 then Some (x - 0x30)
         else if 0x61 \<le> x \<and> x \<le> 0x66 then Some (x - 0x61 + 10)
         else if 0x41 \<le> x \<and> x \<le> 0x46 then Some (x - 0x41 + 10)
         else None)"

fun to_hex :: "buffer \<Rightarrow> jsstring" where
  "to_hex [] = []"
| "to_hex (b # bs) = hex_digit (unat b div 16) # hex_digit (unat b mod 16) # to_hex bs"

fun from_hex :: "jsstring \<Rightarrow> buffer" where
  "from_hex (a # b # rest) =
     (case (hex_value a, hex_value b) of
        (Some h, Some l) \<Rightarrow> of_nat (16 * h + l) # from_hex rest
      | _ \<Rightarrow> [])"
| "from_hex rest = []"

text \<open>
  Writing a string as UTF-8 (\<open>cipher.update(texte, 'utf8')\<close>): a surrogate pair is one code
  point, and a surrogate that is not part of a pair is written as U+FFFD.
\<close>

definition is_high_surrogate :: "code_unit \<Rightarrow> bool" where
  "is_high_surrogate u = in_range 0xD800 0xDBFF u"

definition is_low_surrogate :: "code_unit \<Rightarrow> bool" where
  "is_low_surrogate u = in_range 0xDC00 0xDFFF u"

definition lone :: "code_unit \<Rightarrow> nat" where
  "lone u = (if is_high_surrogate u \<or> is_low_surrogate u then 0xFFFD else unat u)"

fun code_points :: "jsstring \<Rightarrow> nat list" where
  "code_points [] = []"
| "code_points [u] = [lone u]"
| "code_points (u # v # rest) =
     (if is_high_surrogate u \<and> is_low_surrogate v
      then (0x10000 + (unat u - 0xD800) * 0x400 + (unat v - 0xDC00)) # code_points rest
      else lone u # code_points (v # rest))"

definition utf8_bytes :: "nat \<Rightarrow> nat list" where
  "utf8_bytes c =
     (if c < 0x80 then [c]
      else if c < 0x800 then [0xC0 + c div 64, 0x80 + c mod 64]
      else if c < 0x10000 then [0xE0 + c div 4096, 0x80 + (c div 64) mod 64, 0x80 + c mod 64]
      else [0xF0 + c div 262144, 0x80 + (c div 4096) mod 64, 0x80 + (c div 64) mod 64,
            0x80 + c mod 64])"

definition utf8_write :: "jsstring \<Rightarrow> buffer" where
  "utf8_write s = map of_nat (concat (map utf8_bytes (code_points s)))"

text \<open>
  Reading UTF-8 back (\<open>Buffer.prototype.toString\<close>, which is what \<open>+\<close> applies to the
  buffer returned by \<open>decipher.update\<close>): a malformed sequence gives U+FFFD and decoding
  resumes at the offending byte.
\<close>

definition cont :: "nat \<Rightarrow> bool" where
  "cont b \<longleftrightarrow> 0x80 \<le> b \<and> b \<le> 0xBF"

definition second_of_3 :: "nat \<Rightarrow> nat \<Rightarrow> bool" where
  "second_of_3 b0 b1 =
     (if b0 = 0xE0 then 0xA0 \<le> b1 \<and> b1 \<le> 0xBF
      else if b0 = 0xED then 0x80 \<le> b1 \<and> b1 \<le> 0x9F
      else cont b1)"

definition second_of_4 :: "nat \<Rightarrow> nat \<Rightarrow> bool" where
  "second_of_4 b0 b1 =
     (if b0 = 0xF0 then 0x90 \<le> b1 \<and> b1 \<le> 0xBF
      else if b0 = 0xF4 then 0x80 \<le> b1 \<and> b1 \<le> 0x8F
      else cont b1)"

fun decode_utf8 :: "nat list \<Rightarrow> nat list" where
  "decode_utf8 [] = []"
| "decode_utf8 (b0 # bs) =
     (if b0 < 0x80 then b0 # decode_utf8 bs
      else if 0xC2 \<le> b0 \<and> b0 \<le> 0xDF then
        (case bs of
           [] \<Rightarrow> [0xFFFD]
         | b1 # bs1 \<Rightarrow>
             if cont b1 then ((b0 - 0xC0) * 64 + (b1 - 0x80)) # decode_utf8 bs1
             else 0xFFFD # decode_utf8 bs)
      else if 0xE0 \<le> b0 \<and> b0 \<le> 0xEF then
        (case bs of
           [] \<Rightarrow> [0xFFFD]
         | b1 # bs1 \<Rightarrow>
             if second_of_3 b0 b1 then
               (case bs1 of
                  [] \<Rightarrow> [0xFFFD]
                | b2 # bs2 \<Rightarrow>
                    if cont b2
                    then ((b0 - 0xE0) * 4096 + (b1 - 0x80) * 64 + (b2 - 0x80)) # decode_utf8 bs2
                    else 0xFFFD # decode_utf8 bs1)
             else 0xFFFD # decode_utf8 bs)
      else if 0xF0 \<le> b0 \<and> b0 \<le> 0xF4 then
        (case bs of
           [] \<Rightarrow> [0xFFFD]
         | b1 # bs1 \<Rightarrow>
             if second_of_4 b0 b1 then
               (case bs1 of
                  [] \<Rightarrow> [0xFFFD]
                | b2 # bs2 \<Rightarrow>
                    if cont b2 then
                      (case bs2 of
                         [] \<Rightarrow> [0xFFFD]
                       | b3 # bs3 \<Rightarrow>
                           if cont b3
                           then ((b0 - 0xF0) * 262144 + (b1 - 0x80) * 4096 + (b2 - 0x80) * 64
                                  + (b3 - 0x80)) # decode_utf8 bs3
                           else 0xFFFD # decode_utf8 bs2)
                    else 0xFFFD # decode_utf8 bs1)
             else 0xFFFD # decode_utf8 bs)
      else 0xFFFD # decode_utf8 bs)"

definition units_of_code_point :: "nat \<Rightarrow> jsstring" where
  "units_of_code_point c =
     (if c < 0x10000 then [of_nat c]
      else [of_nat (0xD800 + (c - 0x10000) div 0x400), of_nat (0xDC00 + (c - 0x10000) mod 0x400)])"

definition utf8_toString :: "buffer \<Rightarrow> jsstring" where
  "utf8_toString bs = concat (map units_of_code_point (decode_utf8 (map unat bs)))"

text \<open>A string is well formed when every surrogate is part of a pair.\<close>

fun well_formed :: "jsstring \<Rightarrow> bool" where
  "well_formed [] = True"
| "well_formed [u] = (\<not> is_high_surrogate u \<and> \<not> is_low_surrogate u)"
| "well_formed (u # v # rest) =
     (if is_high_surrogate u then is_low_surrogate v \<and> well_formed rest
      else \<not> is_low_surrogate u \<and> well_formed (v # rest))"

definition scalar :: "nat \<Rightarrow> bool" where
  "scalar c \<longleftrightarrow> c < 0x110000 \<and> \<not> (0xD800 \<le> c \<and> c \<le> 0xDFFF)"

subsection \<open>The cipher\<close>

text \<open>
  Node's \<open>crypto\<close> module is not part of the repository; what the codec uses of it is a
  parameter. With \<open>key\<close> and \<open>iv\<close> the arguments of \<open>createCipheriv('aes-256-gcm', key, iv)\<close>
  and \<open>createDecipheriv\<close>:
  \<^item> \<open>cipher_output key iv p\<close> is \<open>Buffer.concat([cipher.update(p), cipher.final()])\<close>;
  \<^item> \<open>cipher_getAuthTag key iv p\<close> is \<open>cipher.getAuthTag()\<close> after that;
  \<^item> \<open>createDecipheriv key iv\<close> is the exception that \<open>createDecipheriv\<close> throws
    (a \<open>TypeError\<close> for an \<open>iv\<close> it does not take), \<open>None\<close> when it returns a decipher;
  \<^item> \<open>setAuthTag key iv tag\<close> is the exception that \<open>decipher.setAuthTag(tag)\<close> throws
    (a \<open>TypeError\<close> for a tag of a length it does not take), \<open>None\<close> when it returns;
  \<^item> \<open>decipher_update key iv c\<close> is \<open>decipher.update(c)\<close>;
  \<^item> \<open>decipher_final key iv tag c\<close> is \<open>decipher.final('utf8')\<close> after these calls: the
    string it returns (in GCM mode the empty string), or the error it throws when the tag
    does not authenticate the data, here \<open>CryptoError\<close>.
\<close>

record crypto_lib =
  scryptSync :: "jsstring \<Rightarrow> jsstring \<Rightarrow> nat \<Rightarrow> buffer"
  cipher_output :: "buffer \<Rightarrow> buffer \<Rightarrow> buffer \<Rightarrow> buffer"
  cipher_getAuthTag :: "buffer \<Rightarrow> buffer \<Rightarrow> buffer \<Rightarrow> buffer"
  createDecipheriv :: "buffer \<Rightarrow> buffer \<Rightarrow> exn option"
  setAuthTag :: "buffer \<Rightarrow> buffer \<Rightarrow> buffer \<Rightarrow> exn option"
  decipher_update :: "buffer \<Rightarrow> buffer \<Rightarrow> buffer \<Rightarrow> buffer"
  decipher_final :: "buffer \<Rightarrow> buffer \<Rightarrow> buffer \<Rightarrow> buffer \<Rightarrow> exn + jsstring"

text \<open>
  The key is derived once, when the module is loaded:
  \<open>crypto.scryptSync(config.JWT_SECRET, 'sel', 32)\<close>.
\<close>

definition ENCRYPTION_KEY :: "crypto_lib \<Rightarrow> config \<Rightarrow> buffer" where
  "ENCRYPTION_KEY cr cfg = scryptSync cr (JWT_SECRET cfg) (js ''sel'') 32"

definition IV_LENGTH :: nat where
  "IV_LENGTH = 16"

text \<open>
  \<open>chiffrer(texte)\<close>; \<open>iv\<close> is the value that \<open>crypto.randomBytes(IV_LENGTH)\<close> returns
  in this call. The envelope is \<open>iv:ciphertext:tag\<close>, each in hexadecimal.
\<close>

definition chiffrer :: "crypto_lib \<Rightarrow> config \<Rightarrow> buffer \<Rightarrow> jsstring \<Rightarrow> jsstring" where
  "chiffrer cr cfg iv texte =
     (let chiffre = cipher_output cr (ENCRYPTION_KEY cr cfg) iv (utf8_write texte);
          tag = cipher_getAuthTag cr (ENCRYPTION_KEY cr cfg) iv (utf8_write texte)
      in to_hex iv @ js '':'' @ to_hex chiffre @ js '':'' @ to_hex tag)"

text \<open>
  \<open>dechiffrer(texteChiffre)\<close>. The destructuring
  \<open>[ivHex, chiffreHex, tagHex] = texteChiffre.split(':')\<close> leaves \<open>undefined\<close> what the
  array does not hold, and \<open>Buffer.from(undefined, 'hex')\<close> throws a \<open>TypeError\<close>. Then
  come \<open>createDecipheriv\<close> and \<open>setAuthTag\<close>, each of which may throw. What the function
  returns is \<open>decipher.update(chiffre) + decipher.final('utf8')\<close>: the buffer read as
  UTF-8, followed by the string of \<open>final\<close>, unless \<open>final\<close> throws.
\<close>

definition buffer_from_hex :: "jsstring option \<Rightarrow> exn + buffer" where
  "buffer_from_hex s = (case s of None \<Rightarrow> Inl TypeError | Some h \<Rightarrow> Inr (from_hex h))"

text \<open>The last three statements of \<open>dechiffrer\<close>, on the three buffers.\<close>

definition dechiffrement :: "crypto_lib \<Rightarrow> buffer \<Rightarrow> buffer \<Rightarrow> buffer \<Rightarrow> buffer \<Rightarrow> exn + jsstring" where
  "dechiffrement cr key iv chiffre tag =
     (case createDecipheriv cr key iv of
        Some e \<Rightarrow> Inl e
      | None \<Rightarrow>
          (case setAuthTag cr key iv tag of
             Some e \<Rightarrow> Inl e
           | None \<Rightarrow>
               (let debut = utf8_toString (decipher_update cr key iv chiffre)
                in case decipher_final cr key iv tag chiffre of
                     Inl e \<Rightarrow> Inl e
                   | Inr fin \<Rightarrow> Inr (debut @ fin))))"

definition dechiffrer :: "crypto_lib \<Rightarrow> config \<Rightarrow> jsstring \<Rightarrow> exn + jsstring" where
  "dechiffrer cr cfg texteChiffre =
     (let parts = split_on 0x3A texteChiffre;
          ivHex = element parts 0;
          chiffreHex = element parts 1;
          tagHex = element parts 2
      in case buffer_from_hex ivHex of
           Inl e \<Rightarrow> Inl e
         | Inr iv \<Rightarrow>
             (case buffer_from_hex chiffreHex of
                Inl e \<Rightarrow> Inl e
              | Inr chiffre \<Rightarrow>
                  (case buffer_from_hex tagHex of
                     Inl e \<Rightarrow> Inl e
                   | Inr tag \<Rightarrow> dechiffrement cr (ENCRYPTION_KEY cr cfg) iv chiffre tag)))"

text \<open>
  The contract of the cipher at one key and nonce: the decipher is made, the tag that the
  cipher produced is taken and authenticates its output, and deciphering what was
  enciphered gives the plaintext back.
\<close>

definition aead_correct :: "crypto_lib \<Rightarrow> buffer \<Rightarrow> buffer \<Rightarrow> bool" where
  "aead_correct cr key iv \<longleftrightarrow>
     createDecipheriv cr key iv = None \<and>
     (\<forall>p. setAuthTag cr key iv (cipher_getAuthTag cr key iv p) = None \<and>
          decipher_update cr key iv (cipher_output cr key iv p) = p \<and>
          decipher_final cr key iv (cipher_getAuthTag cr key iv p) (cipher_output cr key iv p)
            = Inr [])"

text \<open>
  The cipher detects the change of one byte, of the ciphertext or of the tag, of what it
  produced for plaintext \<open>p\<close>: the calls before \<open>final\<close> return (the lengths are those of
  the untouched envelope) and \<open>final\<close> throws.
\<close>

definition tamper_evident :: "crypto_lib \<Rightarrow> buffer \<Rightarrow> buffer \<Rightarrow> buffer \<Rightarrow> bool" where
  "tamper_evident cr key iv p \<longleftrightarrow>
     createDecipheriv cr key iv = None \<and>
     (\<forall>j b. j < length (cipher_output cr key iv p) \<and> b \<noteq> cipher_output cr key iv p ! j \<longrightarrow>
          setAuthTag cr key iv (cipher_getAuthTag cr key iv p) = None \<and>
          decipher_final cr key iv (cipher_getAuthTag cr key iv p)
            ((cipher_output cr key iv p)[j := b]) = Inl CryptoError) \<and>
     (\<forall>j b. j < length (cipher_getAuthTag cr key iv p) \<and> b \<noteq> cipher_getAuthTag cr key iv p ! j \<longrightarrow>
          setAuthTag cr key iv ((cipher_getAuthTag cr key iv p)[j := b]) = None \<and>
          decipher_final cr key iv ((cipher_getAuthTag cr key iv p)[j := b])
            (cipher_output cr key iv p) = Inl CryptoError)"

text \<open>
  A stand-in cipher to run the model: it adds one to every byte, and its tag is the sum of
  the ciphertext bytes followed by fifteen zero bytes. Like Node's GCM decipher made
  without \<open>authTagLength\<close>, it refuses an empty \<open>iv\<close>, takes a tag of 4, 8 or 12 to 16
  bytes, and compares a shorter tag with the beginning of the full one.
\<close>

definition toy_tag :: "buffer \<Rightarrow> buffer" where
  "toy_tag c = [sum_list c, 0, 0, 0, 0, 0, 0, 0, 0, 0, 0, 0, 0, 0, 0, 0]"

definition toy_crypto :: crypto_lib where
  "toy_crypto =
     \<lparr>scryptSync = (\<lambda>pw salt n. replicate n 0x2A),
      cipher_output = (\<lambda>key iv p. map (\<lambda>b. b + 1) p),
      cipher_getAuthTag = (\<lambda>key iv p. toy_tag (map (\<lambda>b. b + 1) p)),
      createDecipheriv = (\<lambda>key iv. if iv = [] then Some TypeError else None),
      setAuthTag = (\<lambda>key iv tag. if length tag \<in> {4, 8, 12, 13, 14, 15, 16} then None
                                  else Some TypeError),
      decipher_update = (\<lambda>key iv c. map (\<lambda>b. b - 1) c),
      decipher_final = (\<lambda>key iv tag c. if tag = take (length tag) (toy_tag c) then Inr []
                                          else Inl CryptoError)\<rparr>"

definition iv0 :: buffer where
  "iv0 = [7, 7, 7, 7, 7, 7, 7, 7, 7, 7, 7, 7, 7, 7, 7, 7]"

subsection \<open>Lemmas on splitting, hexadecimal and UTF-8\<close>

lemma split_on_nonempty: "split_on sep xs \<noteq> []"
  by (induction xs) (auto split: list.splits)

lemma split_on_no_sep: "sep \<notin> set xs \<Longrightarrow> split_on sep xs = [xs]"
  by (induction xs) auto

lemma split_on_append: "sep \<notin> set xs \<Longrightarrow> split_on sep (xs @ sep # rest) = xs # split_on sep rest"
  by (induction xs) auto

lemma hex_digits_all:
  "list_all (\<lambda>n. hex_value (hex_digit n) = Some n \<and> hex_digit n \<noteq> 0x3A) [0..<16]"
  by code_simp

lemma hex_digit_props:
  assumes "n < 16"
  shows "hex_value (hex_digit n) = Some n" "hex_digit n \<noteq> 0x3A"
  using hex_digits_all assms by (simp_all add: list_all_iff)

lemma byte_lt: "unat (b :: byte) < 256"
  using unsigned_less [of b] by simp

lemma nibbles_lt: "unat (b :: byte) div 16 < 16" "unat (b :: byte) mod 16 < 16"
  using byte_lt [of b] by simp_all

lemma to_hex_no_colon: "0x3A \<notin> set (to_hex bs)"
  by (induction bs) (simp_all add: hex_digit_props nibbles_lt)

lemma from_hex_to_hex_append: "from_hex (to_hex bs) = bs"
proof (induction bs)
  case Nil
  show ?case by simp
next
  case (Cons b bs)
  have "of_nat (16 * (unat b div 16) + unat b mod 16) = b"
    by simp
  then show ?case using Cons by (simp add: hex_digit_props nibbles_lt)
qed

lemma utf8_bytes_lt:
  assumes "scalar c" "b \<in> set (utf8_bytes c)"
  shows "b < 256"
  using assms by (auto simp add: scalar_def utf8_bytes_def split: if_splits)

lemma mod_window:
  fixes d :: nat
  assumes "q * 64 \<le> d" "d < q * 64 + k" "k \<le> 64"
  shows "d mod 64 < k"
proof -
  obtain r where r: "d = q * 64 + r" using assms(1) by (metis le_Suc_ex)
  then have "r < k" using assms by simp
  then show ?thesis using r assms(3) by simp
qed

lemma split3:
  fixes c :: nat
  shows "c div 4096 * 4096 + c div 64 mod 64 * 64 + c mod 64 = c"
proof -
  define d1 where "d1 = c div 64"
  define d2 where "d2 = d1 div 64"
  have e2: "c div 4096 = d2" by (simp add: d2_def d1_def div_mult2_eq [symmetric])
  have s1: "c = d1 * 64 + c mod 64" by (simp add: d1_def)
  have s2: "d1 = d2 * 64 + d1 mod 64" by (simp add: d2_def)
  have "d2 * 4096 + (d1 mod 64) * 64 + c mod 64 = (d2 * 64 + d1 mod 64) * 64 + c mod 64"
    by (simp add: algebra_simps)
  also have "\<dots> = c" using s1 s2 by simp
  finally show ?thesis by (simp add: e2 d1_def)
qed

lemma split4:
  fixes c :: nat
  shows "c div 262144 * 262144 + c div 4096 mod 64 * 4096 + c div 64 mod 64 * 64 + c mod 64 = c"
proof -
  define d1 where "d1 = c div 64"
  define d2 where "d2 = d1 div 64"
  define d3 where "d3 = d2 div 64"
  have e2: "c div 4096 = d2" by (simp add: d2_def d1_def div_mult2_eq [symmetric])
  have e3: "c div 262144 = d3" by (simp add: d3_def d2_def d1_def div_mult2_eq [symmetric])
  have s1: "c = d1 * 64 + c mod 64" by (simp add: d1_def)
  have s2: "d1 = d2 * 64 + d1 mod 64" by (simp add: d2_def)
  have s3: "d2 = d3 * 64 + d2 mod 64" by (simp add: d3_def)
  have "d3 * 262144 + (d2 mod 64) * 4096 + (d1 mod 64) * 64 + c mod 64 =
      ((d3 * 64 + d2 mod 64) * 64 + d1 mod 64) * 64 + c mod 64"
    by (simp add: algebra_simps)
  also have "\<dots> = c" using s1 s2 s3 by simp
  finally show ?thesis by (simp add: e2 e3 d1_def)
qed

lemma decode_1: "c < 0x80 \<Longrightarrow> decode_utf8 (utf8_bytes c @ rest) = c # decode_utf8 rest"
  by (simp add: utf8_bytes_def)

lemma decode_2:
  assumes "0x80 \<le> c" "c < 0x800"
  shows "decode_utf8 (utf8_bytes c @ rest) = c # decode_utf8 rest"
proof -
  have b0: "0xC2 \<le> 0xC0 + c div 64" "0xC0 + c div 64 \<le> 0xDF" using assms by simp_all
  have b1: "cont (0x80 + c mod 64)" by (simp add: cont_def)
  have v: "(0xC0 + c div 64 - 0xC0) * 64 + (0x80 + c mod 64 - 0x80) = c" by simp
  show ?thesis using assms b0 b1 v by (simp add: utf8_bytes_def)
qed

lemma decode_3:
  assumes "0x800 \<le> c" "c < 0x10000" "\<not> (0xD800 \<le> c \<and> c \<le> 0xDFFF)"
  shows "decode_utf8 (utf8_bytes c @ rest) = c # decode_utf8 rest"
proof -
  let ?b0 = "0xE0 + c div 4096" and ?b1 = "0x80 + (c div 64) mod 64" and ?b2 = "0x80 + c mod 64"
  have b0: "\<not> ?b0 < 0x80" "\<not> (0xC2 \<le> ?b0 \<and> ?b0 \<le> 0xDF)" "0xE0 \<le> ?b0" "?b0 \<le> 0xEF"
    using assms by simp_all
  have "c div 4096 = 13 \<Longrightarrow> (c div 64) mod 64 < 32"
  proof -
    assume a: "c div 4096 = 13"
    have "13 * 4096 \<le> c" using a div_times_less_eq_dividend [of c 4096] by simp
    then have lo: "13 * 64 \<le> c div 64" by simp
    have "c < 14 * 4096" using a by (simp add: div_less_iff_less_mult [symmetric])
    then have "c < 55296" using assms by simp
    then have hi: "c div 64 < 13 * 64 + 32" by simp
    show ?thesis using mod_window [OF lo hi] by simp
  qed
  then have b1: "second_of_3 ?b0 ?b1"
    using assms by (auto simp add: second_of_3_def cont_def)
  have b2: "cont ?b2" by (simp add: cont_def)
  have v: "(?b0 - 0xE0) * 4096 + (?b1 - 0x80) * 64 + (?b2 - 0x80) = c"
    by (simp add: split3)
  have "utf8_bytes c = [?b0, ?b1, ?b2]" using assms by (simp add: utf8_bytes_def)
  then show ?thesis using b0 b1 b2 v by simp
qed

lemma decode_4:
  assumes "0x10000 \<le> c" "c < 0x110000"
  shows "decode_utf8 (utf8_bytes c @ rest) = c # decode_utf8 rest"
proof -
  let ?b0 = "0xF0 + c div 262144" and ?b1 = "0x80 + (c div 4096) mod 64"
    and ?b2 = "0x80 + (c div 64) mod 64" and ?b3 = "0x80 + c mod 64"
  have b0: "\<not> ?b0 < 0x80" "\<not> (0xC2 \<le> ?b0 \<and> ?b0 \<le> 0xDF)" "\<not> (0xE0 \<le> ?b0 \<and> ?b0 \<le> 0xEF)"
      "0xF0 \<le> ?b0" "?b0 \<le> 0xF4"
    using assms by simp_all
  have "c div 262144 = 4 \<Longrightarrow> (c div 4096) mod 64 < 16"
  proof -
    assume a: "c div 262144 = 4"
    have "4 * 262144 \<le> c" using a div_times_less_eq_dividend [of c 262144] by simp
    then have lo: "4 * 64 \<le> c div 4096" by simp
    have hi: "c div 4096 < 4 * 64 + 16" using assms by simp
    show ?thesis using mod_window [OF lo hi] by simp
  qed
  then have b1: "second_of_4 ?b0 ?b1"
    using assms by (auto simp add: second_of_4_def cont_def)
  have b2: "cont ?b2" "cont ?b3" by (simp_all add: cont_def)
  have v: "(?b0 - 0xF0) * 262144 + (?b1 - 0x80) * 4096 + (?b2 - 0x80) * 64 + (?b3 - 0x80) = c"
    by (simp add: split4)
  have "utf8_bytes c = [?b0, ?b1, ?b2, ?b3]" using assms by (simp add: utf8_bytes_def)
  then show ?thesis using b0 b1 b2 v by simp
qed

lemma decode_scalar:
  assumes "scalar c"
  shows "decode_utf8 (utf8_bytes c @ rest) = c # decode_utf8 rest"
proof -
  consider "c < 0x80" | "0x80 \<le> c \<and> c < 0x800" | "0x800 \<le> c \<and> c < 0x10000" | "0x10000 \<le> c"
    by linarith
  then show ?thesis
  proof cases
    case 1 then show ?thesis by (rule decode_1)
  next
    case 2 then show ?thesis using decode_2 by blast
  next
    case 3 then show ?thesis using decode_3 assms by (simp add: scalar_def)
  next
    case 4 then show ?thesis using decode_4 assms by (simp add: scalar_def)
  qed
qed

lemma decode_encode:
  assumes "\<forall>c \<in> set cs. scalar c"
  shows "decode_utf8 (concat (map utf8_bytes cs)) = cs"
  using assms by (induction cs) (simp_all add: decode_scalar)

lemma unit_lt: "unat (u :: code_unit) < 65536"
  using unsigned_less [of u] by simp

lemma surrogate_nat:
  "is_high_surrogate u \<longleftrightarrow> 0xD800 \<le> unat u \<and> unat u \<le> 0xDBFF"
  "is_low_surrogate u \<longleftrightarrow> 0xDC00 \<le> unat u \<and> unat u \<le> 0xDFFF"
  by (simp_all add: is_high_surrogate_def is_low_surrogate_def in_range_def word_le_nat_alt)

lemma scalar_lone: "scalar (lone u)"
  using unit_lt [of u] by (auto simp add: lone_def scalar_def surrogate_nat)

lemma scalar_pair:
  assumes "is_high_surrogate u" "is_low_surrogate v"
  shows "scalar (0x10000 + (unat u - 0xD800) * 0x400 + (unat v - 0xDC00))"
proof -
  have "unat u - 0xD800 \<le> 0x3FF" "unat v - 0xDC00 \<le> 0x3FF"
    using assms by (auto simp add: surrogate_nat)
  then have "(unat u - 0xD800) * 0x400 + (unat v - 0xDC00) \<le> 0x3FF * 0x400 + 0x3FF"
    by (meson add_mono mult_le_mono1)
  then show ?thesis by (simp add: scalar_def)
qed

lemma code_points_scalar: "\<forall>c \<in> set (code_points s). scalar c"
  by (induction s rule: code_points.induct) (simp_all add: scalar_lone scalar_pair)

lemma units_lone:
  "\<not> is_high_surrogate u \<Longrightarrow> \<not> is_low_surrogate u \<Longrightarrow> units_of_code_point (lone u) = [u]"
  using unit_lt [of u] by (simp add: lone_def units_of_code_point_def)

lemma units_pair:
  assumes "is_high_surrogate u" "is_low_surrogate v"
  shows "units_of_code_point (0x10000 + (unat u - 0xD800) * 0x400 + (unat v - 0xDC00)) = [u, v]"
proof -
  let ?h = "unat u - 0xD800" and ?l = "unat v - 0xDC00"
  have l: "?l < 0x400" using assms by (auto simp add: surrogate_nat)
  have d: "(?h * 0x400 + ?l) div 0x400 = ?h" using l by simp
  have m: "(?h * 0x400 + ?l) mod 0x400 = ?l" using l by simp
  have hu: "0xD800 + ?h = unat u" using assms by (auto simp add: surrogate_nat)
  have lv: "0xDC00 + ?l = unat v" using assms by (auto simp add: surrogate_nat)
  have "units_of_code_point (0x10000 + ?h * 0x400 + ?l) =
      [of_nat (0xD800 + (?h * 0x400 + ?l) div 0x400), of_nat (0xDC00 + (?h * 0x400 + ?l) mod 0x400)]"
    by (simp add: units_of_code_point_def)
  also have "\<dots> = [of_nat (unat u), of_nat (unat v)]"
    by (simp only: d m hu lv)
  finally show ?thesis by simp
qed

lemma units_code_points:
  "well_formed s \<Longrightarrow> concat (map units_of_code_point (code_points s)) = s"
proof (induction s rule: code_points.induct)
  case 1
  show ?case by simp
next
  case (2 u)
  then show ?case by (simp add: units_lone)
next
  case (3 u v rest)
  show ?case
  proof (cases "is_high_surrogate u")
    case True
    then show ?thesis using 3 by (simp add: units_pair)
  next
    case False
    then show ?thesis using 3 by (simp add: units_lone)
  qed
qed

lemma unat_of_nat_bytes:
  assumes "\<forall>b \<in> set bs. b < 256"
  shows "map unat (map of_nat bs :: byte list) = bs"
  using assms by (induction bs) (simp_all add: unat_of_nat)

lemma utf8_toString_write:
  "utf8_toString (utf8_write s) = concat (map units_of_code_point (code_points s))"
proof -
  have "\<forall>b \<in> set (concat (map utf8_bytes (code_points s))). b < 256"
    using code_points_scalar utf8_bytes_lt by auto
  then have "map unat (utf8_write s) = concat (map utf8_bytes (code_points s))"
    unfolding utf8_write_def by (rule unat_of_nat_bytes)
  then show ?thesis
    using code_points_scalar by (simp add: utf8_toString_def decode_encode)
qed

lemma utf8_round_trip: "well_formed s \<Longrightarrow> utf8_toString (utf8_write s) = s"
  by (simp add: utf8_toString_write units_code_points)

lemma well_formed_ascii: "\<forall>u \<in> set s. u < 0x80 \<Longrightarrow> well_formed s"
  by (induction s rule: well_formed.induct)
     (auto simp add: is_high_surrogate_def is_low_surrogate_def in_range_def
        word_le_nat_alt word_less_nat_alt)

subsection \<open>Round trip\<close>

lemma split_envelope:
  "split_on 0x3A (to_hex a @ js '':'' @ to_hex b @ js '':'' @ to_hex c) = [to_hex a, to_hex b, to_hex c]"
  by (simp add: js_def split_on_append split_on_no_sep to_hex_no_colon)

lemma dechiffrer_envelope:
  "dechiffrer cr cfg (to_hex iv @ js '':'' @ to_hex c @ js '':'' @ to_hex t) =
     dechiffrement cr (ENCRYPTION_KEY cr cfg) iv c t"
  by (simp add: dechiffrer_def split_envelope element_def buffer_from_hex_def from_hex_to_hex_append)

lemma dechiffrer_chiffrer:
  assumes "aead_correct cr (ENCRYPTION_KEY cr cfg) iv"
  shows "dechiffrer cr cfg (chiffrer cr cfg iv s) = Inr (utf8_toString (utf8_write s))"
  using assms
  by (simp add: chiffrer_def Let_def dechiffrer_envelope dechiffrement_def aead_correct_def)

lemma toy_aead_correct: "iv \<noteq> [] \<Longrightarrow> aead_correct toy_crypto key iv"
  by (simp add: aead_correct_def toy_crypto_def toy_tag_def comp_def)

lemma iv0_aead_correct: "aead_correct toy_crypto key iv0"
  by (rule toy_aead_correct) (simp add: iv0_def)

text \<open>
  C2 (as stated): \<open>dechiffrer(chiffrer(s)) == s\<close> for every string. It fails on a string
  holding a surrogate that is not part of a pair: the one-unit string D800 is written as
  the bytes EF BF BD, and comes back as the one-unit string FFFD. The stand-in cipher satisfies the
  cipher's contract, so the loss is the codec's.
\<close>

theorem C2_lone_surrogate:
  "aead_correct toy_crypto (ENCRYPTION_KEY toy_crypto config0) iv0 \<and>
   dechiffrer toy_crypto config0 (chiffrer toy_crypto config0 iv0 [0xD800]) = Inr [0xFFFD] \<and>
   dechiffrer toy_crypto config0 (chiffrer toy_crypto config0 iv0 [0xD800]) \<noteq> Inr [0xD800]"
proof -
  have w: "utf8_write [0xD800] = [0xEF, 0xBF, 0xBD]"
    by (simp add: utf8_write_def lone_def is_high_surrogate_def is_low_surrogate_def
        in_range_def utf8_bytes_def)
  have r: "utf8_toString [0xEF, 0xBF, 0xBD] = [0xFFFD]"
    by (simp add: utf8_toString_def second_of_3_def cont_def units_of_code_point_def)
  show ?thesis
    using dechiffrer_chiffrer [OF iv0_aead_correct, where cfg = config0 and s = "[0xD800]"]
      iv0_aead_correct w r
    by simp
qed

text \<open>
  C2 (amended): for every well-formed string \<open>s\<close> (no unpaired surrogate; the empty
  string, strings with colons and strings beyond ASCII included),
  \<open>dechiffrer(chiffrer(s)) = s\<close>, with the key derived from the server secret by
  \<open>ENCRYPTION_KEY\<close>. For any string, the result is \<open>s\<close> with every unpaired surrogate
  replaced by U+FFFD. The hypothesis is the contract of the cipher at that key and nonce.
\<close>

theorem C2_round_trip:
  assumes "aead_correct cr (ENCRYPTION_KEY cr cfg) iv"
  shows "(well_formed s \<longrightarrow> dechiffrer cr cfg (chiffrer cr cfg iv s) = Inr s) \<and>
         dechiffrer cr cfg (chiffrer cr cfg iv s) =
           Inr (concat (map units_of_code_point (code_points s)))"
  using dechiffrer_chiffrer [OF assms] by (simp add: utf8_toString_write units_code_points)

theorem C2_witness:
  "dechiffrer toy_crypto config0 (chiffrer toy_crypto config0 iv0 (js ''p:ss w0rd'')) =
     Inr (js ''p:ss w0rd'') \<and>
   dechiffrer toy_crypto config0 (chiffrer toy_crypto config0 iv0 []) = Inr [] \<and>
   dechiffrer toy_crypto config0 (chiffrer toy_crypto config0 iv0 [0xE9, 0x20AC, 0xD83D, 0xDE00]) =
     Inr [0xE9, 0x20AC, 0xD83D, 0xDE00]"
proof -
  have wf: "well_formed (js ''p:ss w0rd'')" "well_formed []"
      "well_formed [0xE9, 0x20AC, 0xD83D, 0xDE00]"
    by (simp_all add: js_def is_high_surrogate_def is_low_surrogate_def in_range_def)
  show ?thesis
    using C2_round_trip [OF iv0_aead_correct, where cfg = config0 and s = "js ''p:ss w0rd''"]
      C2_round_trip [OF iv0_aead_correct, where cfg = config0 and s = "[]"]
      C2_round_trip [OF iv0_aead_correct, where cfg = config0 and s = "[0xE9, 0x20AC, 0xD83D, 0xDE00]"]
      wf
    by blast
qed

subsection \<open>Malformed envelopes\<close>

text \<open>
  C6: when the envelope splits into fewer than three segments, \<open>tagHex\<close> (or also
  \<open>chiffreHex\<close>) is \<open>undefined\<close> and \<open>Buffer.from(undefined, 'hex')\<close> throws a
  \<open>TypeError\<close> before any cipher object is made: \<open>dechiffrer\<close> fails and returns no
  plaintext. This \<open>TypeError\<close> is the code's malformed-envelope error; it differs from
  the error of a failed authentication, \<open>CryptoError\<close>.
\<close>

theorem C6_malformed:
  assumes "length (split_on 0x3A texteChiffre) < 3"
  shows "dechiffrer cr cfg texteChiffre = Inl TypeError"
proof -
  have "element (split_on 0x3A texteChiffre) 2 = None"
    using assms by (simp add: element_def)
  then show ?thesis
    by (simp add: dechiffrer_def Let_def buffer_from_hex_def split: option.splits sum.splits)
qed

theorem C6_witness:
  "dechiffrer toy_crypto config0 (js ''not-a-valid-envelope'') = Inl TypeError"
proof -
  have "length (split_on 0x3A (js ''not-a-valid-envelope'')) < 3"
    by (simp add: js_def)
  then show ?thesis by (rule C6_malformed)
qed

subsection \<open>Tampering\<close>

lemma hex_value_props:
  assumes "hex_value c = Some v"
  shows "v < 16" "c \<noteq> 0x3A"
proof -
  show "v < 16"
    using assms by (auto simp add: hex_value_def Let_def split: if_splits)
  have "hex_value 0x3A = None"
    by (simp add: hex_value_def low_byte_def)
  then show "c \<noteq> 0x3A"
    using assms by auto
qed

lemma length_to_hex: "length (to_hex bs) = 2 * length bs"
  by (induction bs) simp_all

lemma nibble_byte:
  assumes "h < 16" "l < 16"
  shows "unat (of_nat (16 * h + l) :: byte) = 16 * h + l"
  by (rule of_nat_inverse [OF refl]) (use assms in simp)

lemma byte_split: "16 * (unat (b :: byte) div 16) + unat b mod 16 = unat b"
  by simp

lemma high_nibble_changed:
  assumes "v < 16" "v \<noteq> unat (b :: byte) div 16"
  shows "(of_nat (16 * v + unat b mod 16) :: byte) \<noteq> b"
proof
  assume "(of_nat (16 * v + unat b mod 16) :: byte) = b"
  then have "unat (of_nat (16 * v + unat b mod 16) :: byte) = unat b" by simp
  then have "16 * v + unat b mod 16 = unat b"
    using assms(1) nibbles_lt(2) [of b] by (simp only: nibble_byte)
  then have "(16 * v + unat b mod 16) div 16 = unat b div 16" by simp
  then show False using assms(2) by simp
qed

lemma low_nibble_changed:
  assumes "v < 16" "v \<noteq> unat (b :: byte) mod 16"
  shows "(of_nat (16 * (unat b div 16) + v) :: byte) \<noteq> b"
proof
  assume "(of_nat (16 * (unat b div 16) + v) :: byte) = b"
  then have "unat (of_nat (16 * (unat b div 16) + v) :: byte) = unat b" by simp
  then have "16 * (unat b div 16) + v = unat b"
    using assms(1) nibbles_lt(1) [of b] by (simp only: nibble_byte)
  then have "(16 * (unat b div 16) + v) mod 16 = unat b mod 16" by simp
  then show False using assms by simp
qed

lemma from_hex_changed:
  assumes "i < length (to_hex bs)" "hex_value c = Some v" "hex_value (to_hex bs ! i) \<noteq> Some v"
  shows "\<exists>b. b \<noteq> bs ! (i div 2) \<and> i div 2 < length bs \<and>
             from_hex ((to_hex bs)[i := c]) = bs[i div 2 := b]"
  using assms
proof (induction bs arbitrary: i)
  case Nil
  then show ?case by simp
next
  case (Cons b bs)
  have v: "v < 16" using hex_value_props(1) [OF Cons.prems(2)] .
  consider "i = 0" | "i = 1" | k where "i = Suc (Suc k)"
    by (metis One_nat_def not0_implies_Suc)
  then show ?case
  proof cases
    case 1
    have "v \<noteq> unat b div 16"
      using Cons.prems(3) 1 by (auto simp add: hex_digit_props nibbles_lt)
    then have "(of_nat (16 * v + unat b mod 16) :: byte) \<noteq> b"
      using v by (rule high_nibble_changed [rotated])
    then show ?thesis
      using 1 Cons.prems(2)
      by (auto simp add: hex_digit_props nibbles_lt from_hex_to_hex_append)
  next
    case 2
    have "v \<noteq> unat b mod 16"
      using Cons.prems(3) 2 by (auto simp add: hex_digit_props nibbles_lt)
    then have "(of_nat (16 * (unat b div 16) + v) :: byte) \<noteq> b"
      using v by (rule low_nibble_changed [rotated])
    then show ?thesis
      using 2 Cons.prems(2)
      by (auto simp add: hex_digit_props nibbles_lt from_hex_to_hex_append)
  next
    case 3
    have "k < length (to_hex bs)" "hex_value (to_hex bs ! k) \<noteq> Some v"
      using Cons.prems 3 by simp_all
    then obtain b' where b': "b' \<noteq> bs ! (k div 2)" "k div 2 < length bs"
        "from_hex ((to_hex bs)[k := c]) = bs[k div 2 := b']"
      using Cons.IH [of k] Cons.prems(2) by blast
    have "i div 2 = Suc (k div 2)" using 3 by simp
    then show ?thesis
      using 3 b' by (auto simp add: hex_digit_props nibbles_lt)
  qed
qed

lemma from_hex_cong:
  "map hex_value xs = map hex_value ys \<Longrightarrow> from_hex xs = from_hex ys"
proof (induction xs arbitrary: ys rule: from_hex.induct)
  case (1 a b rest)
  then obtain a' b' rest' where ys: "ys = a' # b' # rest'"
    by (cases ys; cases "tl ys") auto
  have eq: "hex_value a = hex_value a'" "hex_value b = hex_value b'"
      "map hex_value rest = map hex_value rest'"
    using "1.prems" ys by simp_all
  show ?case
  proof (cases "hex_value a")
    case None
    then show ?thesis using eq ys by simp
  next
    case (Some h)
    show ?thesis
    proof (cases "hex_value b")
      case None
      then show ?thesis using Some eq ys by simp
    next
      case (Some l)
      have "from_hex rest = from_hex rest'"
        using "1.IH" [OF refl \<open>hex_value a = Some h\<close> Some eq(3)] .
      then show ?thesis using \<open>hex_value a = Some h\<close> Some eq ys by simp
    qed
  qed
qed auto

lemma from_hex_same:
  assumes "hex_value c = hex_value (xs ! i)"
  shows "from_hex (xs[i := c]) = from_hex xs"
proof (rule from_hex_cong)
  show "map hex_value (xs[i := c]) = map hex_value xs"
  proof (cases "i < length xs")
    case True
    then show ?thesis using assms by (simp add: map_update list_update_same_conv)
  next
    case False
    then have "xs[i := c] = xs" by (simp add: list_update_beyond)
    then show ?thesis by simp
  qed
qed

lemma from_hex_cut:
  assumes "i < length (to_hex bs)" "hex_value c = None"
  shows "from_hex ((to_hex bs)[i := c]) = take (i div 2) bs"
  using assms
proof (induction bs arbitrary: i)
  case Nil
  then show ?case by simp
next
  case (Cons b bs)
  consider "i = 0" | "i = 1" | k where "i = Suc (Suc k)"
    by (metis One_nat_def not0_implies_Suc)
  then show ?case
  proof cases
    case 1
    then show ?thesis using Cons.prems(2) by simp
  next
    case 2
    then show ?thesis using Cons.prems(2) by (simp add: hex_digit_props nibbles_lt)
  next
    case 3
    have "k < length (to_hex bs)"
      using Cons.prems 3 by simp
    then have "from_hex ((to_hex bs)[k := c]) = take (k div 2) bs"
      using Cons.IH [of k] Cons.prems(2) by blast
    moreover have "i div 2 = Suc (k div 2)" using 3 by simp
    ultimately show ?thesis
      using 3 by (simp add: hex_digit_props nibbles_lt)
  qed
qed

lemma update_not_colon:
  assumes "c \<noteq> 0x3A"
  shows "0x3A \<notin> set ((to_hex bs)[i := c])"
proof -
  have "set ((to_hex bs)[i := c]) \<subseteq> insert c (set (to_hex bs))"
    by (rule set_update_subset_insert)
  then show ?thesis
    using to_hex_no_colon [of bs] assms by auto
qed

lemma update_no_colon:
  assumes "hex_value c = Some v"
  shows "0x3A \<notin> set ((to_hex bs)[i := c])"
  using hex_value_props(2) [OF assms] by (rule update_not_colon)

lemma dechiffrer_segments:
  assumes "0x3A \<notin> set a" "0x3A \<notin> set b" "0x3A \<notin> set c"
  shows "dechiffrer cr cfg (a @ js '':'' @ b @ js '':'' @ c) =
           dechiffrement cr (ENCRYPTION_KEY cr cfg) (from_hex a) (from_hex b) (from_hex c)"
proof -
  have "split_on 0x3A (a @ js '':'' @ b @ js '':'' @ c) = [a, b, c]"
    using assms by (simp add: js_def split_on_append split_on_no_sep)
  then show ?thesis
    by (simp add: dechiffrer_def element_def buffer_from_hex_def)
qed

lemma tamper_ciphertext:
  assumes te: "tamper_evident cr (ENCRYPTION_KEY cr cfg) iv p"
    and k: "k < length (to_hex (cipher_output cr (ENCRYPTION_KEY cr cfg) iv p))"
    and c: "hex_value c = Some v"
      "hex_value (to_hex (cipher_output cr (ENCRYPTION_KEY cr cfg) iv p) ! k) \<noteq> Some v"
  shows "dechiffrer cr cfg
           (to_hex iv @ js '':'' @
            (to_hex (cipher_output cr (ENCRYPTION_KEY cr cfg) iv p))[k := c] @ js '':'' @
            to_hex (cipher_getAuthTag cr (ENCRYPTION_KEY cr cfg) iv p)) = Inl CryptoError"
proof -
  let ?key = "ENCRYPTION_KEY cr cfg"
  let ?ct = "cipher_output cr ?key iv p" and ?tag = "cipher_getAuthTag cr ?key iv p"
  obtain b where b: "b \<noteq> ?ct ! (k div 2)" "k div 2 < length ?ct"
      "from_hex ((to_hex ?ct)[k := c]) = ?ct[k div 2 := b]"
    using from_hex_changed [OF k c] by blast
  have "createDecipheriv cr ?key iv = None" "setAuthTag cr ?key iv ?tag = None"
      "decipher_final cr ?key iv ?tag (?ct[k div 2 := b]) = Inl CryptoError"
    using te b(1,2) unfolding tamper_evident_def by blast+
  then have "dechiffrement cr ?key iv (?ct[k div 2 := b]) ?tag = Inl CryptoError"
    by (simp add: dechiffrement_def)
  then show ?thesis
    using b(3) c(1)
    by (simp add: dechiffrer_segments to_hex_no_colon update_no_colon from_hex_to_hex_append)
qed

lemma tamper_tag:
  assumes te: "tamper_evident cr (ENCRYPTION_KEY cr cfg) iv p"
    and k: "k < length (to_hex (cipher_getAuthTag cr (ENCRYPTION_KEY cr cfg) iv p))"
    and c: "hex_value c = Some v"
      "hex_value (to_hex (cipher_getAuthTag cr (ENCRYPTION_KEY cr cfg) iv p) ! k) \<noteq> Some v"
  shows "dechiffrer cr cfg
           (to_hex iv @ js '':'' @
            to_hex (cipher_output cr (ENCRYPTION_KEY cr cfg) iv p) @ js '':'' @
            (to_hex (cipher_getAuthTag cr (ENCRYPTION_KEY cr cfg) iv p))[k := c]) = Inl CryptoError"
proof -
  let ?key = "ENCRYPTION_KEY cr cfg"
  let ?ct = "cipher_output cr ?key iv p" and ?tag = "cipher_getAuthTag cr ?key iv p"
  obtain b where b: "b \<noteq> ?tag ! (k div 2)" "k div 2 < length ?tag"
      "from_hex ((to_hex ?tag)[k := c]) = ?tag[k div 2 := b]"
    using from_hex_changed [OF k c] by blast
  have "createDecipheriv cr ?key iv = None" "setAuthTag cr ?key iv (?tag[k div 2 := b]) = None"
      "decipher_final cr ?key iv (?tag[k div 2 := b]) ?ct = Inl CryptoError"
    using te b(1,2) unfolding tamper_evident_def by blast+
  then have "dechiffrement cr ?key iv ?ct (?tag[k div 2 := b]) = Inl CryptoError"
    by (simp add: dechiffrement_def)
  then show ?thesis
    using b(3) c(1)
    by (simp add: dechiffrer_segments to_hex_no_colon update_no_colon from_hex_to_hex_append)
qed

lemma same_digit_segments:
  assumes "hex_value c = Some v" "hex_value (to_hex bs ! k) = Some v"
  shows "from_hex ((to_hex bs)[k := c]) = bs" "0x3A \<notin> set ((to_hex bs)[k := c])"
proof -
  show "from_hex ((to_hex bs)[k := c]) = bs"
    using from_hex_same [of c "to_hex bs" k] assms by (simp add: from_hex_to_hex_append)
  show "0x3A \<notin> set ((to_hex bs)[k := c])"
    using assms(1) by (rule update_no_colon)
qed

lemma sum_list_update_word:
  fixes xs :: "byte list"
  shows "j < length xs \<Longrightarrow> sum_list (xs[j := b]) = sum_list xs + b - xs ! j"
  by (induction xs arbitrary: j) (auto simp add: nth_Cons split: nat.splits)

lemma toy_tag_length: "length (toy_tag c) = 16" "take 16 (toy_tag c) = toy_tag c"
  by (simp_all add: toy_tag_def)

lemma toy_tamper_evident:
  assumes "iv \<noteq> []"
  shows "tamper_evident toy_crypto key iv p"
proof -
  let ?c = "map (\<lambda>b. b + 1) p :: buffer"
  have ct: "toy_tag ?c \<noteq> toy_tag (?c[j := b])" if "j < length ?c" "b \<noteq> ?c ! j" for j b
    using that by (simp add: toy_tag_def sum_list_update_word del: nth_map)
  have tg: "(toy_tag ?c)[j := b] \<noteq> toy_tag ?c"
    if "j < length (toy_tag ?c)" "b \<noteq> toy_tag ?c ! j" for j b
    using that by (metis nth_list_update_eq)
  have 1: "createDecipheriv toy_crypto key iv = None"
    using assms by (simp add: toy_crypto_def)
  have 2: "setAuthTag toy_crypto key iv (cipher_getAuthTag toy_crypto key iv p) = None \<and>
      decipher_final toy_crypto key iv (cipher_getAuthTag toy_crypto key iv p)
        ((cipher_output toy_crypto key iv p)[j := b]) = Inl CryptoError"
    if "j < length (cipher_output toy_crypto key iv p) \<and> b \<noteq> cipher_output toy_crypto key iv p ! j"
    for j b
  proof -
    have "j < length ?c" "b \<noteq> ?c ! j"
      using that by (auto simp add: toy_crypto_def)
    then have "toy_tag ?c \<noteq> toy_tag (?c[j := b])" by (rule ct)
    then show ?thesis
      by (simp add: toy_crypto_def toy_tag_length)
  qed
  have 3: "setAuthTag toy_crypto key iv ((cipher_getAuthTag toy_crypto key iv p)[j := b]) = None \<and>
      decipher_final toy_crypto key iv ((cipher_getAuthTag toy_crypto key iv p)[j := b])
        (cipher_output toy_crypto key iv p) = Inl CryptoError"
    if "j < length (cipher_getAuthTag toy_crypto key iv p) \<and>
        b \<noteq> cipher_getAuthTag toy_crypto key iv p ! j"
    for j b
  proof -
    have "j < length (toy_tag ?c)" "b \<noteq> toy_tag ?c ! j"
      using that by (simp_all add: toy_crypto_def)
    then have "(toy_tag ?c)[j := b] \<noteq> toy_tag ?c" by (rule tg)
    then show ?thesis
      by (simp add: toy_crypto_def toy_tag_length)
  qed
  show ?thesis
    unfolding tamper_evident_def using 1 2 3 by blast
qed

lemma toy_envelope:
  "chiffrer toy_crypto config0 iv0 (js ''hi'') =
     js ''07070707070707070707070707070707:696a:d3000000000000000000000000000000''"
  by (simp add: chiffrer_def toy_crypto_def toy_tag_def iv0_def utf8_write_def utf8_bytes_def
      lone_def is_high_surrogate_def is_low_surrogate_def in_range_def hex_digit_def js_def
      ENCRYPTION_KEY_def)

lemma toy_hi: "dechiffrer toy_crypto config0 (chiffrer toy_crypto config0 iv0 (js ''hi'')) = Inr (js ''hi'')"
proof -
  have "well_formed (js ''hi'')"
    by (simp add: js_def is_high_surrogate_def is_low_surrogate_def in_range_def)
  then show ?thesis
    using dechiffrer_chiffrer [OF iv0_aead_correct, where cfg = config0 and s = "js ''hi''"]
    by (simp add: utf8_round_trip)
qed

text \<open>
  The envelope as three segments, and what replacing one character after the first colon
  does to them.
\<close>

lemma envelope_position:
  assumes e: "e = chiffrer cr cfg iv s"
    and pos: "2 * length iv < pos" "pos < length e" "e ! pos \<noteq> 0x3A"
  obtains (ciphertext) k where
      "k < length (to_hex (cipher_output cr (ENCRYPTION_KEY cr cfg) iv (utf8_write s)))"
      "pos = 2 * length iv + 1 + k"
      "e ! pos = to_hex (cipher_output cr (ENCRYPTION_KEY cr cfg) iv (utf8_write s)) ! k"
      "\<And>c. e[pos := c] =
         to_hex iv @ js '':'' @
         (to_hex (cipher_output cr (ENCRYPTION_KEY cr cfg) iv (utf8_write s)))[k := c] @ js '':'' @
         to_hex (cipher_getAuthTag cr (ENCRYPTION_KEY cr cfg) iv (utf8_write s))"
    | (tag) k where
      "k < length (to_hex (cipher_getAuthTag cr (ENCRYPTION_KEY cr cfg) iv (utf8_write s)))"
      "pos = 2 * length iv + 1 +
         2 * length (cipher_output cr (ENCRYPTION_KEY cr cfg) iv (utf8_write s)) + 1 + k"
      "e ! pos = to_hex (cipher_getAuthTag cr (ENCRYPTION_KEY cr cfg) iv (utf8_write s)) ! k"
      "\<And>c. e[pos := c] =
         to_hex iv @ js '':'' @
         to_hex (cipher_output cr (ENCRYPTION_KEY cr cfg) iv (utf8_write s)) @ js '':'' @
         (to_hex (cipher_getAuthTag cr (ENCRYPTION_KEY cr cfg) iv (utf8_write s)))[k := c]"
proof -
  let ?key = "ENCRYPTION_KEY cr cfg"
  let ?A = "to_hex iv"
  let ?B = "to_hex (cipher_output cr ?key iv (utf8_write s))"
  let ?C = "to_hex (cipher_getAuthTag cr ?key iv (utf8_write s))"
  have e': "e = ?A @ [0x3A] @ ?B @ [0x3A] @ ?C"
    using e by (simp add: chiffrer_def Let_def js_def)
  have lA: "length ?A = 2 * length iv" by (rule length_to_hex)
  consider "pos < length ?A + 1 + length ?B"
    | "pos = length ?A + 1 + length ?B"
    | "length ?A + 1 + length ?B < pos"
    by linarith
  then show ?thesis
  proof cases
    case 1
    define k where "k = pos - length ?A - 1"
    have k: "k < length ?B" "pos = length ?A + 1 + k"
      using 1 pos(1) lA by (simp_all add: k_def)
    have nth: "e ! pos = ?B ! k"
      unfolding e' k(2) using k(1) by (simp add: nth_append)
    have upd: "e[pos := c] = ?A @ js '':'' @ ?B[k := c] @ js '':'' @ ?C" for c
      unfolding e' k(2) using k(1) by (simp add: list_update_append js_def)
    have "pos = 2 * length iv + 1 + k"
      using k(2) lA by simp
    then show ?thesis using ciphertext [OF k(1) _ nth upd] by blast
  next
    case 2
    have "e ! pos = 0x3A"
      unfolding e' 2 by (simp add: nth_append)
    then show ?thesis using pos(3) by simp
  next
    case 3
    define k where "k = pos - length ?A - length ?B - 2"
    have k: "k < length ?C" "pos = length ?A + 1 + length ?B + 1 + k"
      using 3 pos(2) unfolding e' by (simp_all add: k_def)
    have nth: "e ! pos = ?C ! k"
      unfolding e' k(2) by (simp add: nth_append)
    have upd: "e[pos := c] = ?A @ js '':'' @ ?B @ js '':'' @ ?C[k := c]" for c
      unfolding e' k(2) by (simp add: list_update_append js_def)
    have "pos = 2 * length iv + 1 +
        2 * length (cipher_output cr ?key iv (utf8_write s)) + 1 + k"
      using k(2) lA by (simp add: length_to_hex)
    then show ?thesis using tag [OF k(1) _ nth upd] by blast
  qed
qed

lemma tamper_other_digit:
  assumes te: "tamper_evident cr (ENCRYPTION_KEY cr cfg) iv (utf8_write s)"
    and e: "e = chiffrer cr cfg iv s"
    and pos: "2 * length iv < pos" "pos < length e" "e ! pos \<noteq> 0x3A"
    and c: "hex_value c = Some v" "hex_value (e ! pos) \<noteq> Some v"
  shows "dechiffrer cr cfg (e[pos := c]) = Inl CryptoError"
  using e pos
proof (cases rule: envelope_position)
  case (ciphertext k)
  show ?thesis
    unfolding ciphertext(4) using tamper_ciphertext [OF te ciphertext(1) c(1)] c(2) ciphertext(3)
    by simp
next
  case (tag k)
  show ?thesis
    unfolding tag(4) using tamper_tag [OF te tag(1) c(1)] c(2) tag(3)
    by simp
qed

lemma tamper_same_digit:
  assumes e: "e = chiffrer cr cfg iv s"
    and pos: "2 * length iv < pos" "pos < length e" "e ! pos \<noteq> 0x3A"
    and c: "hex_value c = Some v" "hex_value (e ! pos) = Some v"
  shows "dechiffrer cr cfg (e[pos := c]) = dechiffrer cr cfg e"
proof -
  let ?key = "ENCRYPTION_KEY cr cfg"
  let ?ct = "cipher_output cr ?key iv (utf8_write s)"
  let ?tag = "cipher_getAuthTag cr ?key iv (utf8_write s)"
  have whole: "dechiffrer cr cfg e = dechiffrement cr ?key iv ?ct ?tag"
    unfolding e by (simp add: chiffrer_def Let_def dechiffrer_envelope)
  from e pos show ?thesis
  proof (cases rule: envelope_position)
    case (ciphertext k)
    have "hex_value (to_hex ?ct ! k) = Some v"
      using c(2) ciphertext(3) by simp
    then have "dechiffrer cr cfg (e[pos := c]) = dechiffrement cr ?key iv ?ct ?tag"
      unfolding ciphertext(4) using same_digit_segments [OF c(1)]
      by (simp add: dechiffrer_segments to_hex_no_colon from_hex_to_hex_append)
    then show ?thesis using whole by simp
  next
    case (tag k)
    have "hex_value (to_hex ?tag ! k) = Some v"
      using c(2) tag(3) by simp
    then have "dechiffrer cr cfg (e[pos := c]) = dechiffrement cr ?key iv ?ct ?tag"
      unfolding tag(4) using same_digit_segments [OF c(1)]
      by (simp add: dechiffrer_segments to_hex_no_colon from_hex_to_hex_append)
    then show ?thesis using whole by simp
  qed
qed

text \<open>
  C3 (as stated): changing any single character of the ciphertext or tag segment makes
  \<open>dechiffrer\<close> fail. It does not when the change is of letter case only: the envelope of
  \<open>hi\<close> under the stand-in cipher has the digit \<open>a\<close> at position 36, the last of its
  ciphertext segment, and with \<open>A\<close> there \<open>Buffer.from\<close> reads the same bytes, so
  \<open>dechiffrer\<close> returns \<open>hi\<close>. The stand-in cipher detects every change of a byte, so the
  acceptance is the codec's reading of hexadecimal, not the cipher's.
\<close>

theorem C3_case_change_accepted:
  "tamper_evident toy_crypto (ENCRYPTION_KEY toy_crypto config0) iv0 (utf8_write (js ''hi'')) \<and>
   chiffrer toy_crypto config0 iv0 (js ''hi'') ! 36 = 0x61 \<and>
   (chiffrer toy_crypto config0 iv0 (js ''hi''))[36 := 0x41] \<noteq>
     chiffrer toy_crypto config0 iv0 (js ''hi'') \<and>
   dechiffrer toy_crypto config0 ((chiffrer toy_crypto config0 iv0 (js ''hi''))[36 := 0x41]) =
     Inr (js ''hi'')"
proof -
  let ?e = "chiffrer toy_crypto config0 iv0 (js ''hi'')"
  have te: "tamper_evident toy_crypto (ENCRYPTION_KEY toy_crypto config0) iv0 (utf8_write (js ''hi''))"
    by (rule toy_tamper_evident) (simp add: iv0_def)
  have at: "?e ! 36 = 0x61" "?e[36 := 0x41] \<noteq> ?e"
    by (simp_all only: toy_envelope) (simp_all add: js_def)
  have l: "2 * length iv0 < 36" "36 < length ?e" "?e ! 36 \<noteq> 0x3A"
    by (simp_all only: toy_envelope) (simp_all add: iv0_def js_def)
  have h: "hex_value 0x41 = Some 10" "hex_value (?e ! 36) = Some 10"
    by (simp_all only: at(1)) (simp_all add: hex_value_def low_byte_def)
  have "dechiffrer toy_crypto config0 (?e[36 := 0x41]) = dechiffrer toy_crypto config0 ?e"
    using tamper_same_digit [OF refl l h] .
  then show ?thesis
    using te at toy_hi by simp
qed

text \<open>
  A character that is not a hexadecimal digit (and not a colon) cuts the segment at its
  byte: the decipher is given the bytes before it, and what \<open>dechiffrer\<close> does is what
  the decipher does with them.
\<close>

lemma tamper_not_a_digit:
  assumes e: "e = chiffrer cr cfg iv s"
    and pos: "2 * length iv < pos" "pos < length e" "e ! pos \<noteq> 0x3A"
    and c: "hex_value c = None" "c \<noteq> 0x3A"
    and ct: "ct = cipher_output cr (ENCRYPTION_KEY cr cfg) iv (utf8_write s)"
    and tg: "tg = cipher_getAuthTag cr (ENCRYPTION_KEY cr cfg) iv (utf8_write s)"
  shows "dechiffrer cr cfg (e[pos := c]) =
           (if pos \<le> 2 * length iv + 2 * length ct
            then dechiffrement cr (ENCRYPTION_KEY cr cfg) iv
                   (take ((pos - (2 * length iv + 1)) div 2) ct) tg
            else dechiffrement cr (ENCRYPTION_KEY cr cfg) iv ct
                   (take ((pos - (2 * length iv + 2 * length ct + 2)) div 2) tg))"
  using e pos
proof (cases rule: envelope_position)
  case (ciphertext k)
  have k: "k < 2 * length ct" "pos - (2 * length iv + 1) = k" "pos \<le> 2 * length iv + 2 * length ct"
    using ciphertext(1,2) by (simp_all add: length_to_hex ct)
  have "dechiffrer cr cfg (e[pos := c]) =
      dechiffrement cr (ENCRYPTION_KEY cr cfg) iv (take (k div 2) ct) tg"
    unfolding ciphertext(4)
    using from_hex_cut [OF ciphertext(1) c(1)] update_not_colon [OF c(2)]
    by (simp add: dechiffrer_segments to_hex_no_colon from_hex_to_hex_append ct tg)
  then show ?thesis using k by simp
next
  case (tag k)
  have k: "pos - (2 * length iv + 2 * length ct + 2) = k" "\<not> pos \<le> 2 * length iv + 2 * length ct"
    using tag(2) by (simp_all add: ct)
  have "dechiffrer cr cfg (e[pos := c]) =
      dechiffrement cr (ENCRYPTION_KEY cr cfg) iv ct (take (k div 2) tg)"
    unfolding tag(4)
    using from_hex_cut [OF tag(1) c(1)] update_not_colon [OF c(2)]
    by (simp add: dechiffrer_segments to_hex_no_colon from_hex_to_hex_append ct tg)
  then show ?thesis using k by simp
qed

text \<open>
  In the tag segment this can leave a tag of a length that the decipher takes: with
  \<open>g\<close> at position 62 the tag of the envelope of \<open>hi\<close> is cut to its first twelve
  bytes, which the stand-in cipher, like Node's, compares with the beginning of the full
  tag, and \<open>dechiffrer\<close> returns \<open>hi\<close>. Cut to three bytes (\<open>g\<close> at position 44) the
  tag is refused by \<open>setAuthTag\<close> with a \<open>TypeError\<close>.
\<close>

lemma toy_tag_cut:
  "dechiffrer toy_crypto config0 ((chiffrer toy_crypto config0 iv0 (js ''hi''))[62 := 0x67]) =
     Inr (js ''hi'')"
  "dechiffrer toy_crypto config0 ((chiffrer toy_crypto config0 iv0 (js ''hi''))[44 := 0x67]) =
     Inl TypeError"
proof -
  have e62: "(chiffrer toy_crypto config0 iv0 (js ''hi''))[62 := 0x67] =
      to_hex iv0 @ js '':'' @ js ''696a'' @ js '':'' @ js ''d30000000000000000000000g0000000''"
    and e44: "(chiffrer toy_crypto config0 iv0 (js ''hi''))[44 := 0x67] =
      to_hex iv0 @ js '':'' @ js ''696a'' @ js '':'' @ js ''d30000g0000000000000000000000000''"
    by (simp_all only: toy_envelope) (simp_all add: js_def iv0_def hex_digit_def)
  have nc: "0x3A \<notin> set (js ''696a'')" "0x3A \<notin> set (js ''d30000000000000000000000g0000000'')"
      "0x3A \<notin> set (js ''d30000g0000000000000000000000000'')"
    by (simp_all add: js_def)
  have hx: "from_hex (js ''696a'') = [0x69, 0x6a]"
      "from_hex (js ''d30000000000000000000000g0000000'') = [0xd3, 0, 0, 0, 0, 0, 0, 0, 0, 0, 0, 0]"
      "from_hex (js ''d30000g0000000000000000000000000'') = [0xd3, 0, 0]"
    by (simp_all add: js_def hex_value_def low_byte_def)
  have out: "utf8_toString [0x68, 0x69] = js ''hi''"
    by (simp add: utf8_toString_def units_of_code_point_def js_def)
  have d62: "dechiffrer toy_crypto config0 ((chiffrer toy_crypto config0 iv0 (js ''hi''))[62 := 0x67]) =
      dechiffrement toy_crypto (ENCRYPTION_KEY toy_crypto config0) iv0 [0x69, 0x6a]
        [0xd3, 0, 0, 0, 0, 0, 0, 0, 0, 0, 0, 0]"
    unfolding e62 dechiffrer_segments [OF to_hex_no_colon nc(1) nc(2)]
    by (simp only: hx from_hex_to_hex_append)
  have d44: "dechiffrer toy_crypto config0 ((chiffrer toy_crypto config0 iv0 (js ''hi''))[44 := 0x67]) =
      dechiffrement toy_crypto (ENCRYPTION_KEY toy_crypto config0) iv0 [0x69, 0x6a] [0xd3, 0, 0]"
    unfolding e44 dechiffrer_segments [OF to_hex_no_colon nc(1) nc(3)]
    by (simp only: hx from_hex_to_hex_append)
  show "dechiffrer toy_crypto config0 ((chiffrer toy_crypto config0 iv0 (js ''hi''))[62 := 0x67]) =
     Inr (js ''hi'')"
    unfolding d62 by (simp add: dechiffrement_def toy_crypto_def toy_tag_def iv0_def out)
  show "dechiffrer toy_crypto config0 ((chiffrer toy_crypto config0 iv0 (js ''hi''))[44 := 0x67]) =
     Inl TypeError"
    unfolding d44 by (simp add: dechiffrement_def toy_crypto_def toy_tag_def iv0_def)
qed

text \<open>
  C3 (amended): let \<open>e\<close> be the envelope that \<open>chiffrer\<close> makes for \<open>s\<close>, and replace the
  character at one position of its ciphertext segment or its tag segment (a position
  after the first colon that is not the second colon) by a character \<open>c\<close> that
  \<open>Buffer.from\<close> reads as a hexadecimal digit.
  \<^item> When the digit differs in value from the one replaced, \<open>dechiffrer\<close> fails with the
    error of \<open>decipher.final\<close>: no plaintext, the original or another, is returned. The
    hypothesis is the cipher's guarantee that the change of one byte of the ciphertext or of
    the tag is detected.
  \<^item> When the digit has the value of the one replaced (the other letter case, or a code
    unit with the same low byte), \<open>dechiffrer\<close> does what it does on \<open>e\<close>; under the
    contract of the cipher that is to return the plaintext originally encrypted (\<open>s\<close>, an
    unpaired surrogate read as U+FFFD).
  So \<open>dechiffrer\<close> never returns a plaintext other than the one encrypted.
\<close>

theorem C3_tamper_detection:
  assumes e: "e = chiffrer cr cfg iv s"
    and pos: "2 * length iv < pos" "pos < length e" "e ! pos \<noteq> 0x3A"
    and c: "hex_value c = Some v"
  shows "(hex_value (e ! pos) \<noteq> Some v \<and>
          tamper_evident cr (ENCRYPTION_KEY cr cfg) iv (utf8_write s) \<longrightarrow>
            dechiffrer cr cfg (e[pos := c]) = Inl CryptoError) \<and>
         (hex_value (e ! pos) = Some v \<longrightarrow>
            dechiffrer cr cfg (e[pos := c]) = dechiffrer cr cfg e) \<and>
         (hex_value (e ! pos) = Some v \<and> aead_correct cr (ENCRYPTION_KEY cr cfg) iv \<longrightarrow>
            dechiffrer cr cfg (e[pos := c]) =
              Inr (concat (map units_of_code_point (code_points s))))"
proof (intro conjI impI)
  assume "hex_value (e ! pos) \<noteq> Some v \<and>
      tamper_evident cr (ENCRYPTION_KEY cr cfg) iv (utf8_write s)"
  then show "dechiffrer cr cfg (e[pos := c]) = Inl CryptoError"
    using tamper_other_digit [OF _ e pos c] by blast
next
  assume "hex_value (e ! pos) = Some v"
  then show "dechiffrer cr cfg (e[pos := c]) = dechiffrer cr cfg e"
    using tamper_same_digit [OF e pos c] by blast
next
  assume a: "hex_value (e ! pos) = Some v \<and> aead_correct cr (ENCRYPTION_KEY cr cfg) iv"
  then have "dechiffrer cr cfg (e[pos := c]) = dechiffrer cr cfg e"
    using tamper_same_digit [OF e pos c] by blast
  moreover have "dechiffrer cr cfg e = Inr (concat (map units_of_code_point (code_points s)))"
    unfolding e using dechiffrer_chiffrer a by (simp add: utf8_toString_write)
  ultimately show "dechiffrer cr cfg (e[pos := c]) =
      Inr (concat (map units_of_code_point (code_points s)))"
    by simp
qed

theorem C3_witness:
  "dechiffrer toy_crypto config0
     ((chiffrer toy_crypto config0 iv0 (js ''hi''))[33 := 0x30]) = Inl CryptoError \<and>
   dechiffrer toy_crypto config0
     ((chiffrer toy_crypto config0 iv0 (js ''hi''))[38 := 0x45]) = Inl CryptoError \<and>
   dechiffrer toy_crypto config0
     ((chiffrer toy_crypto config0 iv0 (js ''hi''))[38 := 0x44]) = Inr (js ''hi'')"
proof -
  let ?e = "chiffrer toy_crypto config0 iv0 (js ''hi'')"
  have te: "tamper_evident toy_crypto (ENCRYPTION_KEY toy_crypto config0) iv0 (utf8_write (js ''hi''))"
    by (rule toy_tamper_evident) (simp add: iv0_def)
  have ok: "aead_correct toy_crypto (ENCRYPTION_KEY toy_crypto config0) iv0"
    by (rule iv0_aead_correct)
  have lh: "hex_value 0x30 = Some 0" "hex_value 0x45 = Some 14" "hex_value 0x44 = Some 13"
    by (simp_all add: hex_value_def low_byte_def)
  have l: "2 * length iv0 < 33" "2 * length iv0 < 38" "33 < length ?e" "38 < length ?e"
    by (simp_all only: toy_envelope) (simp_all add: iv0_def js_def)
  have n: "?e ! 33 \<noteq> 0x3A" "hex_value (?e ! 33) \<noteq> Some 0"
      "?e ! 38 \<noteq> 0x3A" "hex_value (?e ! 38) \<noteq> Some 14" "hex_value (?e ! 38) = Some 13"
    by (simp_all only: toy_envelope) (simp_all add: js_def hex_value_def low_byte_def)
  have s: "concat (map units_of_code_point (code_points (js ''hi''))) = js ''hi''"
    by (simp add: js_def units_of_code_point_def lone_def is_high_surrogate_def
        is_low_surrogate_def in_range_def)
  have a: "dechiffrer toy_crypto config0 (?e[33 := 0x30]) = Inl CryptoError"
    using C3_tamper_detection [OF refl l(1) l(3) n(1) lh(1)] te n(2) by blast
  have b: "dechiffrer toy_crypto config0 (?e[38 := 0x45]) = Inl CryptoError"
    using C3_tamper_detection [OF refl l(2) l(4) n(3) lh(2)] te n(4) by blast
  have "dechiffrer toy_crypto config0 (?e[38 := 0x44]) =
      Inr (concat (map units_of_code_point (code_points (js ''hi''))))"
    using C3_tamper_detection [OF refl l(2) l(4) n(3) lh(3)] ok n(5) by blast
  then have c: "dechiffrer toy_crypto config0 (?e[38 := 0x44]) = Inr (js ''hi'')"
    by (simp only: s)
  show ?thesis
    using a b c by (intro conjI)
qed

section \<open>The access gate (\<open>middleware/auth.js\<close>) and the vault routes (\<open>routes/motsDePasse.js\<close>)\<close>

subsection \<open>Requests, responses and row objects\<close>

text \<open>
  What a handler reads of a request: the \<open>Authorization\<close> header, \<open>req.langue\<close>, the
  \<open>id\<close> of the path (\<open>None\<close> when it is not a number: the statement then fails in the
  database), the fields of the JSON body (strings, or absent), and \<open>req.utilisateur\<close>, which
  \<open>verifierToken\<close> sets to the decoded token (only its \<open>id\<close> is read).
\<close>

record request =
  authorization :: "jsstring option"
  langue :: "jsstring option"
  param_id :: "int option"
  body_pin :: "jsstring option"
  body_siteWeb :: "jsstring option"
  body_identifiant :: "jsstring option"
  body_motDePasse :: "jsstring option"
  body_notes :: "jsstring option"
  utilisateur :: "int option"

datatype jsvalue = JNumber int | JString jsstring | JNull | JDate nat

type_synonym jsobject = "(string \<times> jsvalue) list"

datatype body =
    Message jsstring
  | MessageMotDePasse jsstring jsobject
  | MessageMotsDePasse jsstring "jsobject list"
  | MessageCompromis jsstring bool
  | Erreurs "jsstring option list"

record response =
  status :: nat
  body :: body

text \<open>A message in the language of the request: \<open>req.langue === 'fr' ? fr : en\<close>.\<close>

definition msg :: "request \<Rightarrow> jsstring \<times> jsstring \<Rightarrow> jsstring" where
  "msg req m = (if langue req = Some (js ''fr'') then fst m else snd m)"

text \<open>\<open>err.msg[req.langue]\<close> of a validation error: \<open>undefined\<close> for any other language.\<close>

definition msg_of_langue :: "request \<Rightarrow> jsstring \<times> jsstring \<Rightarrow> jsstring option" where
  "msg_of_langue req m =
     (if langue req = Some (js ''fr'') then Some (fst m)
      else if langue req = Some (js ''en'') then Some (snd m)
      else None)"

definition respond :: "nat \<Rightarrow> request \<Rightarrow> jsstring \<times> jsstring \<Rightarrow> response" where
  "respond st req m = \<lparr>status = st, body = Message (msg req m)\<rparr>"

definition M_TOKEN_NON_FOURNI :: "jsstring \<times> jsstring" where
  "M_TOKEN_NON_FOURNI =
     (js ''Token non fourni'',
      js ''No token provided'')"

definition M_SESSION_EXPIREE :: "jsstring \<times> jsstring" where
  "M_SESSION_EXPIREE =
     (js ''Session expir'' @ [0xE9] @ js ''e'',
      js ''Session expired'')"

definition M_TOKEN_INVALIDE :: "jsstring \<times> jsstring" where
  "M_TOKEN_INVALIDE =
     (js ''Token invalide'',
      js ''Invalid token'')"

definition M_PIN_REQUIS :: "jsstring \<times> jsstring" where
  "M_PIN_REQUIS =
     (js ''Code PIN requis'',
      js ''PIN required'')"

definition M_PIN_INVALIDE :: "jsstring \<times> jsstring" where
  "M_PIN_INVALIDE =
     (js ''Code PIN invalide'',
      js ''Invalid PIN'')"

definition M_ERREUR_PIN :: "jsstring \<times> jsstring" where
  "M_ERREUR_PIN =
     (js ''Erreur lors de la v'' @ [0xE9] @ js ''rification du PIN'',
      js ''Error verifying PIN'')"

definition M_SITE_REQUIS :: "jsstring \<times> jsstring" where
  "M_SITE_REQUIS =
     (js ''Le site web est requis'',
      js ''Website is required'')"

definition M_IDENTIFIANT_REQUIS :: "jsstring \<times> jsstring" where
  "M_IDENTIFIANT_REQUIS =
     (js ''L'' @ [0x27] @ js ''identifiant est requis'',
      js ''Username is required'')"

definition M_MOT_DE_PASSE_REQUIS :: "jsstring \<times> jsstring" where
  "M_MOT_DE_PASSE_REQUIS =
     (js ''Le mot de passe est requis'',
      js ''Password is required'')"

definition M_AJOUTE :: "jsstring \<times> jsstring" where
  "M_AJOUTE =
     (js ''Mot de passe ajout'' @ [0xE9] @ js '' avec succ'' @ [0xE8] @ js ''s'',
      js ''Password added successfully'')"

definition M_ERREUR_AJOUT :: "jsstring \<times> jsstring" where
  "M_ERREUR_AJOUT =
     (js ''Erreur lors de l'' @ [0x27] @ js ''ajout du mot de passe'',
      js ''Error adding password'')"

definition M_LISTE :: "jsstring \<times> jsstring" where
  "M_LISTE =
     (js ''Mots de passe r'' @ [0xE9] @ js ''cup'' @ [0xE9] @ js ''r'' @ [0xE9] @ js ''s avec succ'' @ [0xE8] @ js ''s'',
      js ''Passwords retrieved successfully'')"

definition M_ERREUR_LISTE :: "jsstring \<times> jsstring" where
  "M_ERREUR_LISTE =
     (js ''Erreur lors de la r'' @ [0xE9] @ js ''cup'' @ [0xE9] @ js ''ration des mots de passe'',
      js ''Error retrieving passwords'')"

definition M_NON_TROUVE :: "jsstring \<times> jsstring" where
  "M_NON_TROUVE =
     (js ''Mot de passe non trouv'' @ [0xE9],
      js ''Password not found'')"

definition M_RECUPERE :: "jsstring \<times> jsstring" where
  "M_RECUPERE =
     (js ''Mot de passe r'' @ [0xE9] @ js ''cup'' @ [0xE9] @ js ''r'' @ [0xE9] @ js '' avec succ'' @ [0xE8] @ js ''s'',
      js ''Password retrieved successfully'')"

definition M_ERREUR_RECUPERATION :: "jsstring \<times> jsstring" where
  "M_ERREUR_RECUPERATION =
     (js ''Erreur lors de la r'' @ [0xE9] @ js ''cup'' @ [0xE9] @ js ''ration du mot de passe'',
      js ''Error retrieving password'')"

definition M_MODIFIE :: "jsstring \<times> jsstring" where
  "M_MODIFIE =
     (js ''Mot de passe modifi'' @ [0xE9] @ js '' avec succ'' @ [0xE8] @ js ''s'',
      js ''Password updated successfully'')"

definition M_ERREUR_MODIFICATION :: "jsstring \<times> jsstring" where
  "M_ERREUR_MODIFICATION =
     (js ''Erreur lors de la modification du mot de passe'',
      js ''Error updating password'')"

definition M_SUPPRIME :: "jsstring \<times> jsstring" where
  "M_SUPPRIME =
     (js ''Mot de passe supprim'' @ [0xE9] @ js '' avec succ'' @ [0xE8] @ js ''s'',
      js ''Password deleted successfully'')"

definition M_ERREUR_SUPPRESSION :: "jsstring \<times> jsstring" where
  "M_ERREUR_SUPPRESSION =
     (js ''Erreur lors de la suppression du mot de passe'',
      js ''Error deleting password'')"

definition M_AUCUNE_FUITE :: "jsstring \<times> jsstring" where
  "M_AUCUNE_FUITE =
     (js ''Aucune fuite de donn'' @ [0xE9] @ js ''es d'' @ [0xE9] @ js ''tect'' @ [0xE9] @ js ''e pour ce mot de passe'',
      js ''No data breaches detected for this password'')"

text \<open>A row as the object that \<open>pg\<close> returns for \<open>SELECT *\<close>, and the usual operations on objects.\<close>

definition row_object :: "password_row \<Rightarrow> jsobject" where
  "row_object r =
     [(''id'', JNumber (row_id r)),
      (''utilisateur_id'', JNumber (utilisateur_id r)),
      (''site_web'', JString (site_web r)),
      (''identifiant'', JString (identifiant r)),
      (''mot_de_passe_crypte'', JString (mot_de_passe_crypte r)),
      (''notes'', (case row_notes r of None \<Rightarrow> JNull | Some n \<Rightarrow> JString n)),
      (''cree_le'', JDate (cree_le r)),
      (''modifie_le'', JDate (modifie_le r))]"

definition project :: "string list \<Rightarrow> jsobject \<Rightarrow> jsobject" where
  "project cols obj = filter (\<lambda>(k, v). k \<in> set cols) obj"

definition obj_set :: "string \<Rightarrow> jsvalue \<Rightarrow> jsobject \<Rightarrow> jsobject" where
  "obj_set k v obj =
     (if k \<in> set (map fst obj)
      then map (\<lambda>(k', v'). if k' = k then (k', v) else (k', v')) obj
      else obj @ [(k, v)])"

definition obj_delete :: "string \<Rightarrow> jsobject \<Rightarrow> jsobject" where
  "obj_delete k obj = filter (\<lambda>(k', v). k' \<noteq> k) obj"

definition obj_get :: "jsobject \<Rightarrow> string \<Rightarrow> jsvalue option" where
  "obj_get obj k = map_of obj k"

subsection \<open>The libraries and the middleware chain\<close>

text \<open>
  \<open>jwt.verify(token, secret)\<close> as a parameter: the \<open>id\<close> of the decoded token, or
  \<open>None\<close> when it throws (bad signature, expired token). \<open>lib_collate\<close> is the order of
  \<open>ORDER BY site_web ASC\<close> under the database's collation. \<open>lib_randomBytes\<close> is
  \<open>crypto.randomBytes\<close> for this request.
\<close>

record libs =
  lib_jwt :: "jsstring \<Rightarrow> jsstring \<Rightarrow> int option"
  lib_bcrypt :: bcrypt_lib
  lib_crypto :: crypto_lib
  lib_config :: config
  lib_collate :: "password_row list \<Rightarrow> password_row list"
  lib_randomBytes :: "nat \<Rightarrow> buffer"

text \<open>
  A middleware either answers (\<open>Inl\<close>: it returns without calling \<open>next\<close>) or calls
  \<open>next()\<close> (\<open>Inr\<close>, with the request as it leaves it). Express runs the middlewares of a
  route in the order they are listed, then the handler.
\<close>

type_synonym middleware = "request \<Rightarrow> world \<Rightarrow> (response + request) \<times> world"
type_synonym handler = "request \<Rightarrow> world \<Rightarrow> response \<times> world"

fun run_chain :: "middleware list \<Rightarrow> handler \<Rightarrow> handler" where
  "run_chain [] h req w = h req w"
| "run_chain (m # ms) h req w =
     (case m req w of
        (Inl res, w') \<Rightarrow> (res, w')
      | (Inr req', w') \<Rightarrow> run_chain ms h req' w')"

text \<open>\<open>req.headers.authorization?.split(' ')[1]\<close>.\<close>

definition bearer_token :: "request \<Rightarrow> jsstring option" where
  "bearer_token req =
     (case authorization req of None \<Rightarrow> None | Some h \<Rightarrow> element (split_on 0x20 h) 1)"

text \<open>
  \<open>SELECT * FROM sessions WHERE utilisateur_id = $1 AND token = $2 AND expire_le > NOW()\<close>.
\<close>

definition select_session :: "int \<Rightarrow> jsstring \<Rightarrow> database \<Rightarrow> session_row list" where
  "select_session uid token d =
     filter (\<lambda>s. session_utilisateur_id s = uid \<and> session_token s = token \<and>
                  horloge d < expire_le s) (sessions d)"

text \<open>
  \<open>verifierToken\<close>. Everything is inside one \<open>try\<close>: a \<open>jwt.verify\<close> that throws and a
  query that rejects both end in the \<open>catch\<close>, which answers 401.
\<close>

definition verifierToken :: "libs \<Rightarrow> middleware" where
  "verifierToken L req w =
     (let token = bearer_token req
      in if \<not> truthy token then (Inl (respond 401 req M_TOKEN_NON_FOURNI), w)
         else
           (let w = emit Jwt_verify w
            in case lib_jwt L (the token) (JWT_SECRET (lib_config L)) of
                 None \<Rightarrow> (Inl (respond 401 req M_TOKEN_INVALIDE), w)
               | Some decoded_id \<Rightarrow>
                   (let req = req\<lparr>utilisateur := Some decoded_id\<rparr>;
                        w = emit (Query T_sessions) w
                    in if \<not> disponible (db w)
                       then (Inl (respond 401 req M_TOKEN_INVALIDE), w)
                       else if length (select_session decoded_id (the token) (db w)) = 0
                       then (Inl (respond 401 req M_SESSION_EXPIREE), w)
                       else (Inr req, w))))"

text \<open>
  The names bound in the scope of \<open>middleware/auth.js\<close>: its five \<open>require\<close> lines, the
  detector it builds and its own four functions. \<open>resolve\<close> is the lookup of an
  identifier: reading a name that is not bound throws a \<open>ReferenceError\<close>, which is
  \<open>None\<close> here.
\<close>

definition auth_js_scope :: "string list" where
  "auth_js_scope =
     [''jwt'', ''config'', ''db'', ''DeviceDetector'', ''geoip'', ''deviceDetector'',
      ''verifierToken'', ''verifierAdmin'', ''verifierPin'', ''collecterInfoUtilisateur'']"

definition resolve :: "string list \<Rightarrow> string \<Rightarrow> 'a \<Rightarrow> 'a option" where
  "resolve scope name bound = (if name \<in> set scope then Some bound else None)"

text \<open>\<open>SELECT code_pin_hash FROM utilisateurs WHERE id = $1\<close>.\<close>

definition select_utilisateur :: "int \<Rightarrow> database \<Rightarrow> utilisateur_row list" where
  "select_utilisateur uid d = filter (\<lambda>u. utilisateur_row_id u = uid) (utilisateurs d)"

text \<open>
  \<open>verifierPin\<close>, given what the identifier \<open>bcrypt\<close> resolves to. Everything is inside
  one \<open>try\<close> whose \<open>catch\<close> answers 500: reading \<open>req.utilisateur.id\<close> when
  \<open>req.utilisateur\<close> is undefined, a query that rejects, reading \<open>bcrypt\<close> when it is not
  bound (the callee \<open>bcrypt.compare\<close> is evaluated before its arguments), and reading
  \<open>rows[0].code_pin_hash\<close> when there is no row.
\<close>

definition verifierPin :: "bcrypt_lib option \<Rightarrow> middleware" where
  "verifierPin bcrypt req w =
     (case utilisateur req of
        None \<Rightarrow> (Inl (respond 500 req M_ERREUR_PIN), w)
      | Some utilisateurId \<Rightarrow>
          if \<not> truthy (body_pin req) then (Inl (respond 400 req M_PIN_REQUIS), w)
          else
            (let w = emit (Query T_utilisateurs) w
             in if \<not> disponible (db w) then (Inl (respond 500 req M_ERREUR_PIN), w)
                else
                  (case bcrypt of
                     None \<Rightarrow> (Inl (respond 500 req M_ERREUR_PIN), w)
                   | Some bc \<Rightarrow>
                       (case select_utilisateur utilisateurId (db w) of
                          [] \<Rightarrow> (Inl (respond 500 req M_ERREUR_PIN), w)
                        | u # rest \<Rightarrow>
                            (let w = emit Bcrypt_compare w
                             in if \<not> compare bc (the (body_pin req)) (code_pin_hash u)
                                then (Inl (respond 401 req M_PIN_INVALIDE), w)
                                else (Inr req, w))))))"

text \<open>The \<open>verifierPin\<close> that \<open>middleware/auth.js\<close> exports: \<open>bcrypt\<close> is read in its scope.\<close>

definition verifierPin_auth_js :: "libs \<Rightarrow> middleware" where
  "verifierPin_auth_js L = verifierPin (resolve auth_js_scope ''bcrypt'' (lib_bcrypt L))"

text \<open>
  The chains of \<open>express-validator\<close> never answer: they record their errors, which the
  handler reads with \<open>validationResult\<close>. \<open>notEmpty\<close> fails on an absent or empty field.
\<close>

definition validationMotDePasse :: middleware where
  "validationMotDePasse req w = (Inr req, w)"

definition validationResult :: "request \<Rightarrow> (jsstring \<times> jsstring) list" where
  "validationResult req =
     (if truthy (body_siteWeb req) then [] else [M_SITE_REQUIS]) @
     (if truthy (body_identifiant req) then [] else [M_IDENTIFIANT_REQUIS]) @
     (if truthy (body_motDePasse req) then [] else [M_MOT_DE_PASSE_REQUIS])"

subsection \<open>The statements on \<open>mots_de_passe_stockes\<close>\<close>

text \<open>
  The routes use their own table, \<open>mots_de_passe_stockes\<close>, which \<open>init.sql\<close> does not
  declare; its columns are those that the statements of the routes name, the same as
  those of \<open>mots_de_passe\<close>.
\<close>

text \<open>
  \<open>INSERT INTO mots_de_passe_stockes (...) VALUES ($1, ..., $5) RETURNING ...\<close>: the row
  inserted (the handler projects it), and the new database. An absent \<open>notes\<close> is stored
  as \<open>NULL\<close>.
\<close>

definition insert_stocke ::
  "int \<Rightarrow> jsstring \<Rightarrow> jsstring \<Rightarrow> jsstring \<Rightarrow> jsstring option \<Rightarrow> database \<Rightarrow> password_row \<times> database" where
  "insert_stocke uid site ident crypte nts d =
     (let row = \<lparr>row_id = mots_de_passe_stockes_seq d, utilisateur_id = uid, site_web = site,
                  identifiant = ident, mot_de_passe_crypte = crypte, row_notes = nts,
                  cree_le = horloge d, modifie_le = horloge d\<rparr>
      in (row, d\<lparr>mots_de_passe_stockes := mots_de_passe_stockes d @ [row],
                 mots_de_passe_stockes_seq := mots_de_passe_stockes_seq d + 1\<rparr>))"

text \<open>
  \<open>UPDATE mots_de_passe_stockes SET site_web = $1, identifiant = $2, mot_de_passe_crypte = $3,
  notes = $4, modifie_le = NOW() WHERE id = $5 AND utilisateur_id = $6 RETURNING ...\<close>.
\<close>

definition update_stocke ::
  "jsstring \<Rightarrow> jsstring \<Rightarrow> jsstring \<Rightarrow> jsstring option \<Rightarrow> int \<Rightarrow> int \<Rightarrow> database \<Rightarrow> password_row list \<times> database" where
  "update_stocke site ident crypte nts i uid d =
     (let hit = (\<lambda>r. row_id r = i \<and> utilisateur_id r = uid);
          rows = map (\<lambda>r. if hit r
                          then r\<lparr>site_web := site, identifiant := ident,
                                 mot_de_passe_crypte := crypte, row_notes := nts,
                                 modifie_le := horloge d\<rparr>
                          else r) (mots_de_passe_stockes d)
      in (filter hit rows, d\<lparr>mots_de_passe_stockes := rows\<rparr>))"

text \<open>\<open>DELETE FROM mots_de_passe_stockes WHERE id = $1 AND utilisateur_id = $2 RETURNING id\<close>.\<close>

definition delete_stocke :: "int \<Rightarrow> int \<Rightarrow> database \<Rightarrow> password_row list \<times> database" where
  "delete_stocke i uid d =
     (let hit = (\<lambda>r. row_id r = i \<and> utilisateur_id r = uid)
      in (filter hit (mots_de_passe_stockes d),
          d\<lparr>mots_de_passe_stockes := filter (\<lambda>r. \<not> hit r) (mots_de_passe_stockes d)\<rparr>))"

subsection \<open>The handlers\<close>

text \<open>
  Each handler is the last function of its route. Its \<open>try\<close> block answers 500 from the
  \<open>catch\<close>: when the query rejects, when \<open>req.utilisateur\<close> is undefined (the parameters
  of the query are evaluated before it is sent), and when \<open>dechiffrer\<close> throws.
\<close>

definition ajouter :: "libs \<Rightarrow> handler" where
  "ajouter L req w =
     (let erreurs = validationResult req
      in if erreurs \<noteq> []
         then (\<lparr>status = 400, body = Erreurs (map (msg_of_langue req) erreurs)\<rparr>, w)
         else
           (let w = emit Codec_chiffrer w;
                motDePasseChiffre =
                  chiffrer (lib_crypto L) (lib_config L) (lib_randomBytes L IV_LENGTH)
                    (the (body_motDePasse req))
            in case utilisateur req of
                 None \<Rightarrow> (respond 500 req M_ERREUR_AJOUT, w)
               | Some uid \<Rightarrow>
                   (let w = emit (Query T_mots_de_passe_stockes) w
                    in if \<not> disponible (db w) then (respond 500 req M_ERREUR_AJOUT, w)
                       else
                         (let (row, d) =
                                insert_stocke uid (the (body_siteWeb req))
                                  (the (body_identifiant req)) motDePasseChiffre
                                  (body_notes req) (db w);
                              w = w\<lparr>db := d\<rparr>
                          in (\<lparr>status = 201,
                               body = MessageMotDePasse (msg req M_AJOUTE)
                                 (project [''id'', ''site_web'', ''identifiant'', ''notes'',
                                           ''cree_le''] (row_object row))\<rparr>, w)))))"

definition lister :: "libs \<Rightarrow> handler" where
  "lister L req w =
     (case utilisateur req of
        None \<Rightarrow> (respond 500 req M_ERREUR_LISTE, w)
      | Some uid \<Rightarrow>
          (let w = emit (Query T_mots_de_passe_stockes) w
           in if \<not> disponible (db w) then (respond 500 req M_ERREUR_LISTE, w)
              else
                (\<lparr>status = 200,
                  body = MessageMotsDePasse (msg req M_LISTE)
                    (map (\<lambda>r. project [''id'', ''site_web'', ''identifiant'', ''notes'',
                                        ''cree_le'', ''modifie_le''] (row_object r))
                       (lib_collate L
                          (filter (\<lambda>r. utilisateur_id r = uid)
                             (mots_de_passe_stockes (db w)))))\<rparr>, w)))"

definition recuperer :: "libs \<Rightarrow> handler" where
  "recuperer L req w =
     (case utilisateur req of
        None \<Rightarrow> (respond 500 req M_ERREUR_RECUPERATION, w)
      | Some uid \<Rightarrow>
          (let w = emit (Query T_mots_de_passe_stockes) w
           in if \<not> disponible (db w) \<or> param_id req = None
              then (respond 500 req M_ERREUR_RECUPERATION, w)
              else
                (case select_by_id_and_owner (the (param_id req)) uid
                        (mots_de_passe_stockes (db w)) of
                   [] \<Rightarrow> (respond 404 req M_NON_TROUVE, w)
                 | row # rest \<Rightarrow>
                     (let w = emit Codec_dechiffrer w
                      in case dechiffrer (lib_crypto L) (lib_config L) (mot_de_passe_crypte row) of
                           Inl e \<Rightarrow> (respond 500 req M_ERREUR_RECUPERATION, w)
                         | Inr motDePasseDechiffre \<Rightarrow>
                             (\<lparr>status = 200,
                               body = MessageMotDePasse (msg req M_RECUPERE)
                                 (obj_delete ''mot_de_passe_crypte''
                                    (obj_set ''mot_de_passe'' (JString motDePasseDechiffre)
                                       (row_object row)))\<rparr>, w)))))"

definition modifier :: "libs \<Rightarrow> handler" where
  "modifier L req w =
     (let erreurs = validationResult req
      in if erreurs \<noteq> []
         then (\<lparr>status = 400, body = Erreurs (map (msg_of_langue req) erreurs)\<rparr>, w)
         else
           (let w = emit Codec_chiffrer w;
                motDePasseChiffre =
                  chiffrer (lib_crypto L) (lib_config L) (lib_randomBytes L IV_LENGTH)
                    (the (body_motDePasse req))
            in case utilisateur req of
                 None \<Rightarrow> (respond 500 req M_ERREUR_MODIFICATION, w)
               | Some uid \<Rightarrow>
                   (let w = emit (Query T_mots_de_passe_stockes) w
                    in if \<not> disponible (db w) \<or> param_id req = None
                       then (respond 500 req M_ERREUR_MODIFICATION, w)
                       else
                         (let (rows, d) =
                                update_stocke (the (body_siteWeb req))
                                  (the (body_identifiant req)) motDePasseChiffre
                                  (body_notes req) (the (param_id req)) uid (db w);
                              w = w\<lparr>db := d\<rparr>
                          in case rows of
                               [] \<Rightarrow> (respond 404 req M_NON_TROUVE, w)
                             | row # rest \<Rightarrow>
                                 (\<lparr>status = 200,
                                   body = MessageMotDePasse (msg req M_MODIFIE)
                                     (project [''id'', ''site_web'', ''identifiant'', ''notes'',
                                               ''modifie_le''] (row_object row))\<rparr>, w)))))"

definition supprimer :: "libs \<Rightarrow> handler" where
  "supprimer L req w =
     (case utilisateur req of
        None \<Rightarrow> (respond 500 req M_ERREUR_SUPPRESSION, w)
      | Some uid \<Rightarrow>
          (let w = emit (Query T_mots_de_passe_stockes) w
           in if \<not> disponible (db w) \<or> param_id req = None
              then (respond 500 req M_ERREUR_SUPPRESSION, w)
              else
                (let (rows, d) = delete_stocke (the (param_id req)) uid (db w);
                     w = w\<lparr>db := d\<rparr>
                 in case rows of
                      [] \<Rightarrow> (respond 404 req M_NON_TROUVE, w)
                    | row # rest \<Rightarrow> (respond 200 req M_SUPPRIME, w))))"

text \<open>\<open>POST /verifier-fuite\<close>: the check is simulated, \<open>estCompromis\<close> is always false.\<close>

definition verifier_fuite :: "libs \<Rightarrow> handler" where
  "verifier_fuite L req w =
     (\<lparr>status = 200, body = MessageCompromis (msg req M_AUCUNE_FUITE) False\<rparr>, w)"

subsection \<open>The routes\<close>

datatype route = POST_racine | GET_racine | GET_id | PUT_id | DELETE_id | POST_verifier_fuite

fun serve :: "libs \<Rightarrow> route \<Rightarrow> handler" where
  "serve L POST_racine =
     run_chain [verifierToken L, verifierPin_auth_js L, validationMotDePasse] (ajouter L)"
| "serve L GET_racine = run_chain [verifierToken L] (lister L)"
| "serve L GET_id = run_chain [verifierToken L, verifierPin_auth_js L] (recuperer L)"
| "serve L PUT_id =
     run_chain [verifierToken L, verifierPin_auth_js L, validationMotDePasse] (modifier L)"
| "serve L DELETE_id = run_chain [verifierToken L, verifierPin_auth_js L] (supprimer L)"
| "serve L POST_verifier_fuite = run_chain [verifierToken L] (verifier_fuite L)"

text \<open>
  A request whose session token is present, verifies, and has an unexpired session row,
  in the words of the claim; \<open>jwt.verify\<close> rejects a token whose own expiry has passed.
\<close>

definition session_valid :: "libs \<Rightarrow> request \<Rightarrow> world \<Rightarrow> bool" where
  "session_valid L req w \<longleftrightarrow>
     (case bearer_token req of
        None \<Rightarrow> False
      | Some token \<Rightarrow>
          token \<noteq> [] \<and>
          (case lib_jwt L token (JWT_SECRET (lib_config L)) of
             None \<Rightarrow> False
           | Some uid \<Rightarrow>
               disponible (db w) \<and>
               list_ex (\<lambda>s. session_utilisateur_id s = uid \<and> session_token s = token \<and>
                             horloge (db w) < expire_le s) (sessions (db w))))"

text \<open>Stand-ins to run the routes: a \<open>jwt\<close> that knows one token, and two requests.\<close>

definition toy_libs :: libs where
  "toy_libs =
     \<lparr>lib_jwt = (\<lambda>token secret. if token = js ''tok-alice'' then Some 10 else None),
      lib_bcrypt = toy_bcrypt,
      lib_crypto = toy_crypto,
      lib_config = config0,
      lib_collate = (\<lambda>rows. rows),
      lib_randomBytes = (\<lambda>n. iv0)\<rparr>"

definition request0 :: request where
  "request0 =
     \<lparr>authorization = None, langue = Some (js ''en''), param_id = Some 1,
      body_pin = Some (js ''123456''), body_siteWeb = Some (js ''example.com''),
      body_identifiant = Some (js ''alice''), body_motDePasse = Some (js ''s3cret:pw''),
      body_notes = None, utilisateur = None\<rparr>"

text \<open>
  More inputs: a request of user 10 with a valid session and the wrong PIN, the argument
  of a \<open>create\<close>, a request of user 20 for record 1, and a database whose
  \<open>mots_de_passe_stockes\<close> holds the rows of users 10 and 20.
\<close>

definition request_wrong_pin :: request where
  "request_wrong_pin =
     request0\<lparr>authorization := Some (js ''Bearer tok-alice''), body_pin := Some (js ''000000'')\<rparr>"

definition data0 :: create_data where
  "data0 = \<lparr>data_utilisateur_id = 10, data_site_web = js ''example.com'',
             data_identifiant = js ''testuser'', data_mot_de_passe = js ''Password123!'',
             data_notes = None\<rparr>"

definition request_bob :: request where
  "request_bob = request0\<lparr>utilisateur := Some 20, param_id := Some 1\<rparr>"

definition world1 :: world where
  "world1 = world0\<lparr>db := database0\<lparr>mots_de_passe_stockes := [row_alice, row_bob]\<rparr>\<rparr>"

subsection \<open>Gate ordering\<close>


lemma verifierToken_invalid:
  assumes "\<not> session_valid L req w"
  shows "\<exists>res evs. verifierToken L req w = (Inl res, w\<lparr>trace := trace w @ evs\<rparr>) \<and>
           status res = 401 \<and> set evs \<subseteq> {Jwt_verify, Query T_sessions}"
proof (cases "truthy (bearer_token req)")
  case False
  then have "verifierToken L req w = (Inl (respond 401 req M_TOKEN_NON_FOURNI), w\<lparr>trace := trace w @ []\<rparr>)"
    by (simp add: verifierToken_def)
  then show ?thesis by (metis (no_types) respond_def response.select_convs(1) empty_set empty_subsetI)
next
  case True
  then obtain token where t: "bearer_token req = Some token" "token \<noteq> []"
    by (cases "bearer_token req") auto
  show ?thesis
  proof (cases "lib_jwt L token (JWT_SECRET (lib_config L))")
    case None
    then have "verifierToken L req w =
        (Inl (respond 401 req M_TOKEN_INVALIDE), w\<lparr>trace := trace w @ [Jwt_verify]\<rparr>)"
      using t by (simp add: verifierToken_def Let_def emit_def)
    then show ?thesis by (auto simp add: respond_def)
  next
    case (Some uid)
    let ?req = "req\<lparr>utilisateur := Some uid\<rparr>"
    have nv: "\<not> disponible (db w) \<or> length (select_session uid token (db w)) = 0"
      using assms t Some
      by (auto simp add: session_valid_def select_session_def filter_empty_conv list_ex_iff)
    then have "\<exists>res. verifierToken L req w =
        (Inl res, w\<lparr>trace := trace w @ [Jwt_verify, Query T_sessions]\<rparr>) \<and> status res = 401"
      using t Some by (auto simp add: verifierToken_def Let_def emit_def respond_def)
    then obtain res where "verifierToken L req w =
        (Inl res, w\<lparr>trace := trace w @ [Jwt_verify, Query T_sessions]\<rparr>)" "status res = 401"
      by blast
    then show ?thesis
      by (intro exI [of _ res] exI [of _ "[Jwt_verify, Query T_sessions]"]) simp
  qed
qed

lemma run_chain_stops:
  "m req w = (Inl res, w') \<Longrightarrow> run_chain (m # ms) h req w = (res, w')"
  by simp

lemma serve_starts_with_token:
  "\<exists>ms h. serve L r = run_chain (verifierToken L # ms) h"
  by (cases r) auto

text \<open>
  C5: every route of the vault starts with \<open>verifierToken\<close>. When the session token is
  missing, does not verify or has no unexpired session, the request is answered 401 by
  \<open>verifierToken\<close>, whatever the body holds (a valid PIN included): the database is
  unchanged, and the only calls made are \<open>jwt.verify\<close> and the query on \<open>sessions\<close>;
  neither a password table nor the codec nor the PIN check (the query on
  \<open>utilisateurs\<close>, \<open>bcrypt.compare\<close>) is reached.
\<close>

theorem C5_gate_ordering:
  assumes "\<not> session_valid L req w"
  shows "status (fst (serve L r req w)) = 401 \<and>
         db (snd (serve L r req w)) = db w \<and>
         (\<exists>evs. trace (snd (serve L r req w)) = trace w @ evs \<and>
                \<not> list_ex is_store_or_codec evs \<and>
                Query T_utilisateurs \<notin> set evs \<and> Bcrypt_compare \<notin> set evs)"
proof -
  obtain res evs where v: "verifierToken L req w = (Inl res, w\<lparr>trace := trace w @ evs\<rparr>)"
      "status res = 401" "set evs \<subseteq> {Jwt_verify, Query T_sessions}"
    using verifierToken_invalid [OF assms] by blast
  obtain ms h where "serve L r = run_chain (verifierToken L # ms) h"
    using serve_starts_with_token by blast
  then have s: "serve L r req w = (res, w\<lparr>trace := trace w @ evs\<rparr>)"
    using v(1) by simp
  have "\<not> list_ex is_store_or_codec evs" "Query T_utilisateurs \<notin> set evs" "Bcrypt_compare \<notin> set evs"
    using v(3) by (auto simp add: list_ex_iff)
  then show ?thesis using s v(2) by auto
qed

theorem C5_witness:
  "status (fst (serve toy_libs GET_id request0 world0)) = 401 \<and>
   db (snd (serve toy_libs GET_id request0 world0)) = db world0 \<and>
   (\<exists>evs. trace (snd (serve toy_libs GET_id request0 world0)) = trace world0 @ evs \<and>
          \<not> list_ex is_store_or_codec evs \<and>
          Query T_utilisateurs \<notin> set evs \<and> Bcrypt_compare \<notin> set evs)"
proof -
  have "\<not> session_valid toy_libs request0 world0"
    by (simp add: session_valid_def bearer_token_def request0_def)
  then show ?thesis by (rule C5_gate_ordering)
qed

subsection \<open>The PIN check\<close>

lemma bearer_alice: "bearer_token request_wrong_pin = Some (js ''tok-alice'')"
  by (simp add: bearer_token_def request_wrong_pin_def request0_def element_def js_def)

lemma token_alice:
  "verifierToken toy_libs request_wrong_pin world0 =
     (Inr (request_wrong_pin\<lparr>utilisateur := Some 10\<rparr>),
      world0\<lparr>trace := [Jwt_verify, Query T_sessions]\<rparr>)"
  by (simp add: verifierToken_def bearer_alice Let_def emit_def toy_libs_def world0_def
      database0_def select_session_def) (simp add: js_def)

lemma bcrypt_unbound: "resolve auth_js_scope ''bcrypt'' bc = None"
  by (simp add: resolve_def auth_js_scope_def)

lemma pin_auth_js:
  "verifierPin_auth_js toy_libs (request_wrong_pin\<lparr>utilisateur := Some 10\<rparr>)
     (world0\<lparr>trace := [Jwt_verify, Query T_sessions]\<rparr>) =
     (Inl \<lparr>status = 500, body = Message (js ''Error verifying PIN'')\<rparr>,
      world0\<lparr>trace := [Jwt_verify, Query T_sessions, Query T_utilisateurs]\<rparr>)"
  by (simp add: verifierPin_auth_js_def bcrypt_unbound verifierPin_def request_wrong_pin_def
      request0_def Let_def emit_def world0_def database0_def respond_def msg_def M_ERREUR_PIN_def)
     (simp add: js_def)

lemma pin_bound:
  "verifierPin (Some toy_bcrypt) (request_wrong_pin\<lparr>utilisateur := Some 10\<rparr>)
     (world0\<lparr>trace := [Jwt_verify, Query T_sessions]\<rparr>) =
     (Inl \<lparr>status = 401, body = Message (js ''Invalid PIN'')\<rparr>,
      world0\<lparr>trace := [Jwt_verify, Query T_sessions, Query T_utilisateurs, Bcrypt_compare]\<rparr>)"
  by (simp add: verifierPin_def request_wrong_pin_def
      request0_def Let_def emit_def world0_def database0_def respond_def msg_def M_PIN_INVALIDE_def
      select_utilisateur_def toy_bcrypt_def)
     (simp add: js_def)

text \<open>
  The \<open>verifierPin\<close> of \<open>middleware/auth.js\<close> never calls \<open>next\<close>, and never answers 401:
  \<open>bcrypt\<close> is not among the modules the file requires.
\<close>

lemma verifierPin_auth_js_never_passes:
  "\<exists>res w'. verifierPin_auth_js L req w = (Inl res, w') \<and> (status res = 400 \<or> status res = 500)"
  by (simp add: verifierPin_auth_js_def bcrypt_unbound verifierPin_def Let_def respond_def
      split: option.splits)

text \<open>
  C4: a request of user 10 with a valid session and the PIN \<open>000000\<close>, where the stored
  hash is that of \<open>123456\<close>, on \<open>GET /:id\<close>. The claim says 401 \<open>Invalid PIN\<close>. The route
  answers 500 \<open>Error verifying PIN\<close>: reading \<open>bcrypt\<close> throws, and the \<open>catch\<close> answers.
  The handler does not run in either case. The second part is the same chain with
  \<open>bcrypt\<close> bound: the function then answers 401 \<open>Invalid PIN\<close>, as its source intends.
\<close>

theorem C4_pin_mismatch_answers_500:
  "serve toy_libs GET_id request_wrong_pin world0 =
     (\<lparr>status = 500, body = Message (js ''Error verifying PIN'')\<rparr>,
      world0\<lparr>trace := [Jwt_verify, Query T_sessions, Query T_utilisateurs]\<rparr>) \<and>
   run_chain [verifierToken toy_libs, verifierPin (Some toy_bcrypt)] (recuperer toy_libs)
     request_wrong_pin world0 =
     (\<lparr>status = 401, body = Message (js ''Invalid PIN'')\<rparr>,
      world0\<lparr>trace := [Jwt_verify, Query T_sessions, Query T_utilisateurs, Bcrypt_compare]\<rparr>)"
  by (simp add: token_alice pin_auth_js pin_bound)

subsection \<open>Cross-owner isolation\<close>

lemma select_other_owner:
  assumes "distinct (map row_id rows)" "r \<in> set rows" "utilisateur_id r \<noteq> B"
  shows "select_by_id_and_owner (row_id r) B rows = []"
proof -
  have inj: "inj_on row_id (set rows)"
    using assms(1) by (simp add: distinct_map)
  have "\<And>x. x \<in> set rows \<Longrightarrow> row_id x = row_id r \<Longrightarrow> x = r"
    using inj assms(2) by (meson inj_onD)
  then show ?thesis
    using assms(3) by (auto simp add: select_by_id_and_owner_def filter_empty_conv)
qed

lemma select_absent:
  assumes "\<forall>x \<in> set rows. row_id x \<noteq> j"
  shows "select_by_id_and_owner j B rows = []"
  using assms by (auto simp add: select_by_id_and_owner_def filter_empty_conv)

lemma findById_empty:
  assumes "disponible (db w)" "select_by_id_and_owner i B (mots_de_passe (db w)) = []"
  shows "findById i B w =
     (Inl (AppError MSG_NON_TROUVE 404),
      w\<lparr>trace := trace w @ [Query T_mots_de_passe, Log_error ''password_fetch_error'']\<rparr>)"
  using assms by (simp add: findById_def Let_def emit_def)

lemma recuperer_empty:
  assumes "disponible (db w)" "utilisateur req = Some B" "param_id req = Some i"
    "select_by_id_and_owner i B (mots_de_passe_stockes (db w)) = []"
  shows "recuperer L req w =
     (respond 404 req M_NON_TROUVE, w\<lparr>trace := trace w @ [Query T_mots_de_passe_stockes]\<rparr>)"
  using assms by (simp add: recuperer_def Let_def emit_def)

text \<open>
  C9: let \<open>r\<close> be a record of the table, owned by another user than \<open>B\<close>; identifiers are
  unique (\<open>id\<close> is the primary key). Fetching \<open>r\<close> as \<open>B\<close> fails with
  \<open>AppError('Mot de passe non trouv\'e', 404)\<close> in the service (\<open>findById\<close>), and is
  answered 404 by the handler of \<open>GET /:id\<close>; the status is 404, not 403. In both, the
  result is the one obtained on the table from which the record has been removed.
\<close>

theorem C9_cross_owner_isolation:
  assumes "disponible (db w)"
    and "distinct (map row_id rows)"
    and "r \<in> set rows"
    and "utilisateur_id r \<noteq> B"
  shows "(mots_de_passe (db w) = rows \<longrightarrow>
            fst (findById (row_id r) B w) = Inl (AppError MSG_NON_TROUVE 404) \<and>
            status_of (AppError MSG_NON_TROUVE 404) = 404 \<and>
            fst (findById (row_id r) B
                   (w\<lparr>db := (db w)\<lparr>mots_de_passe := filter (\<lambda>x. row_id x \<noteq> row_id r) rows\<rparr>\<rparr>)) =
              fst (findById (row_id r) B w)) \<and>
         (mots_de_passe_stockes (db w) = rows \<and> utilisateur req = Some B \<and>
          param_id req = Some (row_id r) \<longrightarrow>
            fst (recuperer L req w) = respond 404 req M_NON_TROUVE \<and>
            status (fst (recuperer L req w)) = 404 \<and>
            fst (recuperer L req
                   (w\<lparr>db := (db w)\<lparr>mots_de_passe_stockes :=
                                      filter (\<lambda>x. row_id x \<noteq> row_id r) rows\<rparr>\<rparr>)) =
              fst (recuperer L req w))"
proof -
  have other: "select_by_id_and_owner (row_id r) B rows = []"
    using assms(2,3,4) by (rule select_other_owner)
  have absent: "select_by_id_and_owner (row_id r) B (filter (\<lambda>x. row_id x \<noteq> row_id r) rows) = []"
    by (rule select_absent) simp
  have svc: "fst (findById (row_id r) B w) = Inl (AppError MSG_NON_TROUVE 404)"
    if "mots_de_passe (db w) = rows"
    using findById_empty [of w "row_id r" B] assms(1) other that by simp
  have svc': "fst (findById (row_id r) B
      (w\<lparr>db := (db w)\<lparr>mots_de_passe := filter (\<lambda>x. row_id x \<noteq> row_id r) rows\<rparr>\<rparr>)) =
      Inl (AppError MSG_NON_TROUVE 404)"
    using findById_empty [of "w\<lparr>db := (db w)\<lparr>mots_de_passe := filter (\<lambda>x. row_id x \<noteq> row_id r) rows\<rparr>\<rparr>"
        "row_id r" B] assms(1) absent by simp
  have rt: "fst (recuperer L req w) = respond 404 req M_NON_TROUVE"
    if "mots_de_passe_stockes (db w) = rows" "utilisateur req = Some B"
      "param_id req = Some (row_id r)"
    using recuperer_empty [of w req B "row_id r" L] assms(1) other that by simp
  have rt': "fst (recuperer L req
      (w\<lparr>db := (db w)\<lparr>mots_de_passe_stockes := filter (\<lambda>x. row_id x \<noteq> row_id r) rows\<rparr>\<rparr>)) =
      respond 404 req M_NON_TROUVE"
    if "utilisateur req = Some B" "param_id req = Some (row_id r)"
    using recuperer_empty [of "w\<lparr>db := (db w)\<lparr>mots_de_passe_stockes := filter (\<lambda>x. row_id x \<noteq> row_id r) rows\<rparr>\<rparr>"
        req B "row_id r" L] assms(1) absent that by simp
  show ?thesis
    using svc svc' rt rt' by (simp add: respond_def)
qed

theorem C9_witness:
  "fst (findById 1 20 world0) = Inl (AppError MSG_NON_TROUVE 404) \<and>
   fst (recuperer toy_libs request_bob world1) = respond 404 request_bob M_NON_TROUVE \<and>
   status (fst (recuperer toy_libs request_bob world1)) = 404"
proof -
  have a: "disponible (db world0)" "disponible (db world1)"
    by (simp_all add: world0_def world1_def database0_def)
  have d: "distinct (map row_id [row_alice, row_bob])"
    by (simp add: row_alice_def row_bob_def)
  have m: "row_alice \<in> set [row_alice, row_bob]" by simp
  have o: "utilisateur_id row_alice \<noteq> 20" "row_id row_alice = 1"
    by (simp_all add: row_alice_def)
  have t: "mots_de_passe (db world0) = [row_alice, row_bob]"
      "mots_de_passe_stockes (db world1) = [row_alice, row_bob]"
    by (simp_all add: world0_def world1_def database0_def)
  have q: "utilisateur request_bob = Some 20" "param_id request_bob = Some (row_id row_alice)"
    by (simp_all add: request_bob_def request0_def row_alice_def)
  have "fst (findById (row_id row_alice) 20 world0) = Inl (AppError MSG_NON_TROUVE 404)"
    using C9_cross_owner_isolation [OF a(1) d m o(1)] t(1) by blast
  moreover have "fst (recuperer toy_libs request_bob world1) = respond 404 request_bob M_NON_TROUVE \<and>
      status (fst (recuperer toy_libs request_bob world1)) = 404"
    using C9_cross_owner_isolation [OF a(2) d m o(1), of request_bob toy_libs] t(2) q by blast
  ultimately show ?thesis using o(2) by (simp add: respond_def)
qed

subsection \<open>Identifiers in the states the service reaches\<close>

text \<open>
  What the statements above assume of the table holds of the empty table and is kept by
  \<open>create\<close> and \<open>update\<close>: identifiers are unique, and the sequence is ahead of them.
  Neither function changes the identifier or the owner of a row.
\<close>

definition ids_ok :: "password_row list \<Rightarrow> int \<Rightarrow> bool" where
  "ids_ok rows next_id \<longleftrightarrow>
     distinct (map row_id rows) \<and> list_all (\<lambda>r. row_id r < next_id) rows"

lemma assign_keeps:
  "row_id (assign col v r) = row_id r" "utilisateur_id (assign col v r) = utilisateur_id r"
  by (induction col v r rule: assign.induct) simp_all

lemma fold_assign_keeps:
  "row_id (fold (\<lambda>(col, n). assign col (parameter vs n)) fs r) = row_id r \<and>
   utilisateur_id (fold (\<lambda>(col, n). assign col (parameter vs n)) fs r) = utilisateur_id r"
  by (induction fs arbitrary: r) (auto simp add: assign_keeps)

lemma update_row_keeps:
  "row_id (update_row st now r) = row_id r" "utilisateur_id (update_row st now r) = utilisateur_id r"
  using fold_assign_keeps [of "values_sql st" "updateFields st" r] by (simp_all add: update_row_def)

lemma insert_ids_ok:
  assumes "ids_ok (mots_de_passe d) (mots_de_passe_seq d)"
  shows "ids_ok (mots_de_passe (snd (insert_mot_de_passe uid site ident crypte nts d)))
           (mots_de_passe_seq (snd (insert_mot_de_passe uid site ident crypte nts d)))"
  using assms
  by (auto simp add: ids_ok_def insert_mot_de_passe_def Let_def list_all_iff)

lemma run_update_ids_ok:
  assumes "ids_ok (mots_de_passe d) (mots_de_passe_seq d)"
  shows "ids_ok (mots_de_passe (snd (run_update st i uid d)))
           (mots_de_passe_seq (snd (run_update st i uid d)))"
proof -
  let ?f = "\<lambda>r. if row_id r = i \<and> utilisateur_id r = uid then update_row st (horloge d) r else r"
  have "row_id \<circ> ?f = row_id"
    by (auto simp add: fun_eq_iff update_row_keeps)
  then have "distinct (map (row_id \<circ> ?f) (mots_de_passe d))"
    using assms by (simp add: ids_ok_def)
  moreover have "list_all (\<lambda>r. row_id r < mots_de_passe_seq d) (map ?f (mots_de_passe d))"
    using assms by (auto simp add: ids_ok_def list_all_iff update_row_keeps)
  ultimately show ?thesis
    using assms by (simp add: ids_ok_def run_update_def Let_def)
qed

lemma create_ids_ok:
  assumes "ids_ok (mots_de_passe (db w)) (mots_de_passe_seq (db w))"
  shows "ids_ok (mots_de_passe (db (snd (create bc cfg data w))))
           (mots_de_passe_seq (db (snd (create bc cfg data w))))"
proof (cases "disponible (db w)")
  case False
  then show ?thesis using assms by (simp add: create_def Let_def emit_def query_rejected_def)
next
  case True
  obtain row d where i: "insert_mot_de_passe (data_utilisateur_id data) (data_site_web data)
      (data_identifiant data)
      (hash bc (data_mot_de_passe data) (genSalt bc (BCRYPT_ROUNDS cfg))) (data_notes data) (db w) = (row, d)"
    by (cases "insert_mot_de_passe (data_utilisateur_id data) (data_site_web data)
      (data_identifiant data)
      (hash bc (data_mot_de_passe data) (genSalt bc (BCRYPT_ROUNDS cfg))) (data_notes data) (db w)")
  have "ids_ok (mots_de_passe d) (mots_de_passe_seq d)"
    using insert_ids_ok [OF assms, of "data_utilisateur_id data" "data_site_web data"
        "data_identifiant data" "hash bc (data_mot_de_passe data) (genSalt bc (BCRYPT_ROUNDS cfg))"
        "data_notes data"] i by simp
  then show ?thesis using True i by (simp add: create_def Let_def emit_def)
qed

lemma update_ids_ok:
  assumes "ids_ok (mots_de_passe (db w)) (mots_de_passe_seq (db w))"
  shows "ids_ok (mots_de_passe (db (snd (update bc cfg i uid data w))))
           (mots_de_passe_seq (db (snd (update bc cfg i uid data w))))"
proof -
  obtain m w1 where h: "hash_if_given bc cfg data w = (m, w1)"
    by (cases "hash_if_given bc cfg data w")
  have w1: "db w1 = db w"
    using h by (auto simp add: hash_if_given_def Let_def emit_def split: if_splits)
  let ?st = "build_update i uid data m"
  let ?w2 = "emit (Query T_mots_de_passe) w1"
  obtain rows d where r: "run_update ?st i uid (db ?w2) = (rows, d)"
    by (cases "run_update ?st i uid (db ?w2)")
  have d: "ids_ok (mots_de_passe d) (mots_de_passe_seq d)"
    using run_update_ids_ok [of "db ?w2" ?st i uid] assms w1 r by (simp add: emit_def)
  show ?thesis
  proof (cases "updateFields ?st = [] \<or> \<not> disponible (db w)")
    case True
    then show ?thesis
      using assms h w1 by (auto simp add: update_def Let_def emit_def query_rejected_def)
  next
    case False
    then show ?thesis
      using h w1 r d by (cases rows) (simp_all add: update_def Let_def emit_def)
  qed
qed

lemma ids_ok_empty: "ids_ok [] next_id"
  by (simp add: ids_ok_def)

subsection \<open>Recovering a stored secret\<close>

lemma select_fresh:
  assumes "\<forall>r \<in> set rows. row_id r < i" "row_id row = i" "utilisateur_id row = uid"
  shows "select_by_id_and_owner i uid (rows @ [row]) = [row]"
proof -
  have "filter (\<lambda>r. row_id r = i \<and> utilisateur_id r = uid) rows = []"
    using assms(1) by (auto simp add: filter_empty_conv)
  then show ?thesis using assms(2,3) by (simp add: select_by_id_and_owner_def)
qed

lemma row_object_fields:
  "obj_get (row_object row) ''mot_de_passe_crypte'' = Some (JString (mot_de_passe_crypte row))"
  "obj_get (row_object row) ''mot_de_passe'' = None"
  "obj_get (row_object row) ''id'' = Some (JNumber (row_id row))"
  by (simp_all add: obj_get_def row_object_def)

lemma ajouter_ok:
  assumes "truthy (body_siteWeb req)" "truthy (body_identifiant req)" "truthy (body_motDePasse req)"
    and "utilisateur req = Some uid" "disponible (db w)"
  shows "ajouter L req w =
     (let row = \<lparr>row_id = mots_de_passe_stockes_seq (db w), utilisateur_id = uid,
                  site_web = the (body_siteWeb req), identifiant = the (body_identifiant req),
                  mot_de_passe_crypte =
                    chiffrer (lib_crypto L) (lib_config L) (lib_randomBytes L IV_LENGTH)
                      (the (body_motDePasse req)),
                  row_notes = body_notes req, cree_le = horloge (db w),
                  modifie_le = horloge (db w)\<rparr>
      in (\<lparr>status = 201,
           body = MessageMotDePasse (msg req M_AJOUTE)
                    (project [''id'', ''site_web'', ''identifiant'', ''notes'', ''cree_le'']
                       (row_object row))\<rparr>,
          w\<lparr>db := (db w)\<lparr>mots_de_passe_stockes := mots_de_passe_stockes (db w) @ [row],
                           mots_de_passe_stockes_seq := mots_de_passe_stockes_seq (db w) + 1\<rparr>,
            trace := trace w @ [Codec_chiffrer, Query T_mots_de_passe_stockes]\<rparr>))"
  using assms
  by (simp add: ajouter_def validationResult_def Let_def emit_def insert_stocke_def)

lemma recuperer_ok:
  assumes "utilisateur req = Some uid" "param_id req = Some i" "disponible (db w)"
    and "select_by_id_and_owner i uid (mots_de_passe_stockes (db w)) = [row]"
    and "dechiffrer (lib_crypto L) (lib_config L) (mot_de_passe_crypte row) = Inr secret"
  shows "recuperer L req w =
     (\<lparr>status = 200,
       body = MessageMotDePasse (msg req M_RECUPERE)
                (obj_delete ''mot_de_passe_crypte''
                   (obj_set ''mot_de_passe'' (JString secret) (row_object row)))\<rparr>,
      w\<lparr>trace := trace w @ [Query T_mots_de_passe_stockes, Codec_dechiffrer]\<rparr>)"
  using assms by (simp add: recuperer_def Let_def emit_def)

lemma revealed_object:
  "obj_get (obj_delete ''mot_de_passe_crypte''
             (obj_set ''mot_de_passe'' (JString secret) (row_object row))) ''mot_de_passe'' =
     Some (JString secret)"
  "obj_get (obj_delete ''mot_de_passe_crypte''
             (obj_set ''mot_de_passe'' (JString secret) (row_object row))) ''mot_de_passe_crypte'' =
     None"
  by (simp_all add: obj_get_def obj_delete_def obj_set_def row_object_def)

text \<open>
  The routes do what the claim says, once the gate is passed: a well-formed secret added by
  the handler of \<open>POST /\<close> is returned by the handler of \<open>GET /:id\<close> for the same
  identifier and owner, in the field \<open>mot_de_passe\<close>, and the envelope field is removed.
\<close>

lemma route_add_then_reveal:
  assumes aead: "aead_correct (lib_crypto L) (ENCRYPTION_KEY (lib_crypto L) (lib_config L))
                   (lib_randomBytes L IV_LENGTH)"
    and secret: "well_formed secret" "secret \<noteq> []" "body_motDePasse req = Some secret"
    and fields: "truthy (body_siteWeb req)" "truthy (body_identifiant req)"
    and user: "utilisateur req = Some uid" "utilisateur req' = Some uid"
    and avail: "disponible (db w)"
    and fresh: "\<forall>r \<in> set (mots_de_passe_stockes (db w)). row_id r < mots_de_passe_stockes_seq (db w)"
    and id: "param_id req' = Some (mots_de_passe_stockes_seq (db w))"
  shows "\<exists>obj w' obj' w''.
           ajouter L req w =
             (\<lparr>status = 201, body = MessageMotDePasse (msg req M_AJOUTE) obj\<rparr>, w') \<and>
           obj_get obj ''id'' = Some (JNumber (mots_de_passe_stockes_seq (db w))) \<and>
           recuperer L req' w' =
             (\<lparr>status = 200, body = MessageMotDePasse (msg req' M_RECUPERE) obj'\<rparr>, w'') \<and>
           obj_get obj' ''mot_de_passe'' = Some (JString secret) \<and>
           obj_get obj' ''mot_de_passe_crypte'' = None"
proof -
  let ?env = "chiffrer (lib_crypto L) (lib_config L) (lib_randomBytes L IV_LENGTH) secret"
  let ?row = "\<lparr>row_id = mots_de_passe_stockes_seq (db w), utilisateur_id = uid,
      site_web = the (body_siteWeb req), identifiant = the (body_identifiant req),
      mot_de_passe_crypte = ?env, row_notes = body_notes req, cree_le = horloge (db w),
      modifie_le = horloge (db w)\<rparr>"
  let ?obj = "project [''id'', ''site_web'', ''identifiant'', ''notes'', ''cree_le''] (row_object ?row)"
  let ?w' = "w\<lparr>db := (db w)\<lparr>mots_de_passe_stockes := mots_de_passe_stockes (db w) @ [?row],
                           mots_de_passe_stockes_seq := mots_de_passe_stockes_seq (db w) + 1\<rparr>,
            trace := trace w @ [Codec_chiffrer, Query T_mots_de_passe_stockes]\<rparr>"
  let ?obj' = "obj_delete ''mot_de_passe_crypte''
                 (obj_set ''mot_de_passe'' (JString secret) (row_object ?row))"
  let ?w'' = "?w'\<lparr>trace := trace ?w' @ [Query T_mots_de_passe_stockes, Codec_dechiffrer]\<rparr>"
  have a: "ajouter L req w =
      (\<lparr>status = 201, body = MessageMotDePasse (msg req M_AJOUTE) ?obj\<rparr>, ?w')"
    using ajouter_ok [of req uid w L] secret(2,3) fields user(1) avail by (simp add: Let_def)
  have i: "obj_get ?obj ''id'' = Some (JNumber (mots_de_passe_stockes_seq (db w)))"
    by (simp add: obj_get_def project_def row_object_def)
  have sel: "select_by_id_and_owner (mots_de_passe_stockes_seq (db w)) uid
      (mots_de_passe_stockes (db ?w')) = [?row]"
    using select_fresh [of "mots_de_passe_stockes (db w)" "mots_de_passe_stockes_seq (db w)" ?row uid]
      fresh by simp
  have dec: "dechiffrer (lib_crypto L) (lib_config L) (mot_de_passe_crypte ?row) = Inr secret"
    using dechiffrer_chiffrer [OF aead, of secret] secret(1) by (simp add: utf8_round_trip)
  have r: "recuperer L req' ?w' =
      (\<lparr>status = 200, body = MessageMotDePasse (msg req' M_RECUPERE) ?obj'\<rparr>, ?w'')"
    using recuperer_ok [of req' uid "mots_de_passe_stockes_seq (db w)" ?w' ?row L secret]
      user(2) id avail sel dec by simp
  show ?thesis
    using a i r revealed_object [of secret ?row]
    by (intro exI [of _ ?obj] exI [of _ ?w'] exI [of _ ?obj'] exI [of _ ?w'']) simp
qed

text \<open>
  C1: the service (\<open>services/password.ts\<close>) does not. \<open>create\<close> stores
  \<open>bcrypt.hash(mot_de_passe, salt)\<close> in \<open>mot_de_passe_crypte\<close>, under the comment
  "Chiffrement du mot de passe"; a hash cannot be deciphered, and the service has no
  deciphering. For the same identifier and owner, \<open>findById\<close> returns the row as stored:
  the envelope field is still there and holds the hash, and no field holds the plaintext.
  The hypotheses are that the database answers and that the sequence of identifiers is
  ahead of the table.
\<close>

theorem C1_service_returns_hash:
  assumes "disponible (db w)"
    and "\<forall>r \<in> set (mots_de_passe (db w)). row_id r < mots_de_passe_seq (db w)"
  shows "\<exists>row w'. create bc cfg data w = (Inr row, w') \<and>
           fst (findById (row_id row) (data_utilisateur_id data) w') = Inr row \<and>
           obj_get (row_object row) ''mot_de_passe_crypte'' =
             Some (JString (hash bc (data_mot_de_passe data) (genSalt bc (BCRYPT_ROUNDS cfg)))) \<and>
           obj_get (row_object row) ''mot_de_passe'' = None"
proof -
  let ?h = "hash bc (data_mot_de_passe data) (genSalt bc (BCRYPT_ROUNDS cfg))"
  let ?row = "\<lparr>row_id = mots_de_passe_seq (db w), utilisateur_id = data_utilisateur_id data,
      site_web = data_site_web data, identifiant = data_identifiant data,
      mot_de_passe_crypte = ?h, row_notes = data_notes data,
      cree_le = horloge (db w), modifie_le = horloge (db w)\<rparr>"
  let ?d = "(db w)\<lparr>mots_de_passe := mots_de_passe (db w) @ [?row],
      mots_de_passe_seq := mots_de_passe_seq (db w) + 1\<rparr>"
  let ?w = "w\<lparr>db := ?d, trace := trace w @ [Bcrypt_genSalt, Bcrypt_hash, Query T_mots_de_passe,
      Log_info ''password_created'']\<rparr>"
  have c: "create bc cfg data w = (Inr ?row, ?w)"
    using assms(1) by (simp add: create_def Let_def emit_def insert_mot_de_passe_def)
  have sel: "select_by_id_and_owner (row_id ?row) (data_utilisateur_id data) (mots_de_passe (db ?w)) = [?row]"
    using select_fresh [of "mots_de_passe (db w)" "mots_de_passe_seq (db w)" ?row "data_utilisateur_id data"]
      assms(2) by simp
  have f: "fst (findById (row_id ?row) (data_utilisateur_id data) ?w) = Inr ?row"
    using assms(1) sel by (simp add: findById_def Let_def emit_def)
  show ?thesis
    using c f row_object_fields(1,2) [of ?row] by (intro exI [of _ ?row] exI [of _ ?w]) simp
qed

theorem C1_witness:
  "\<exists>row w'. create toy_bcrypt config0 data0 world0 = (Inr row, w') \<and>
     fst (findById (row_id row) (data_utilisateur_id data0) w') = Inr row \<and>
     obj_get (row_object row) ''mot_de_passe_crypte'' =
       Some (JString (hash toy_bcrypt (data_mot_de_passe data0)
                        (genSalt toy_bcrypt (BCRYPT_ROUNDS config0)))) \<and>
     obj_get (row_object row) ''mot_de_passe'' = None"
proof -
  have a: "disponible (db world0)"
    by (simp add: world0_def database0_def)
  have b: "\<forall>r \<in> set (mots_de_passe (db world0)). row_id r < mots_de_passe_seq (db world0)"
    by (simp add: world0_def database0_def row_alice_def row_bob_def)
  show ?thesis using C1_service_returns_hash [OF a b] .
qed

end
